theory Spec2Isabelle
  imports Main "HOL-Library.Sublist" "HOL-Library.Multiset" "HOL-Library.Word"
begin

section \<open>The Go library, as far as main.go uses it\<close>

text \<open>
  main.go calls into Go's standard library. The byte-level string functions are written
  out. Everything whose result depends on Unicode tables, on the URL grammar or on the
  network is a field of a record that the scanner's functions take as an argument, so a
  theorem about the scanner holds for every behaviour of those library functions.
  A Go \<open>error\<close> is represented by its message (what \<open>%v\<close> prints).
\<close>

fun Join :: "string list \<Rightarrow> string \<Rightarrow> string" where
  "Join [] sep = []"
| "Join [x] sep = x"
| "Join (x # y # ys) sep = x @ sep @ Join (y # ys) sep"

definition Contains :: "string \<Rightarrow> string \<Rightarrow> bool" where
  \<comment> \<open>\<open>strings.Contains(s, substr)\<close>\<close>
  "Contains s substr = sublist substr s"

record url_URL =
  Scheme :: string
  Host :: string

record http_Request =
  req_Method :: string
  req_URL :: url_URL
  req_Host :: string
  req_Header :: "string \<rightharpoonup> string list"

record http_Response =
  resp_StatusCode :: int
  resp_Header :: "(string \<times> string list) list"
    \<comment> \<open>the header map, listed in the order in which \<open>range\<close> visits it\<close>

record golib =
  url_Parse :: "string \<Rightarrow> string + url_URL"
  strings_TrimSpace :: "string \<Rightarrow> string"
  strings_ToLower :: "string \<Rightarrow> string"
  CanonicalMIMEHeaderKey :: "string \<Rightarrow> string"
  validMethod :: "string \<Rightarrow> bool"
  removeEmptyPort :: "string \<Rightarrow> string"
  fmt_q :: "string \<Rightarrow> string"

text \<open>
  What one call of \<open>testCORS\<close> observes of the outside world: the clock, and the answer
  of \<open>client.Do\<close> (with the client's timeout) to the request it is given. Every call of
  \<open>client.Do\<close> is taken to come back, with a response or with an error.
\<close>

record net =
  time_Now :: string
  client_Do :: "64 word \<Rightarrow> http_Request \<Rightarrow> string + http_Response"

definition Header_Set :: "golib \<Rightarrow> http_Request \<Rightarrow> string \<Rightarrow> string \<Rightarrow> http_Request" where
  \<comment> \<open>\<open>req.Header.Set(key, value)\<close>\<close>
  "Header_Set lib req key v =
     req\<lparr>req_Header := (req_Header req)(CanonicalMIMEHeaderKey lib key \<mapsto> [v])\<rparr>"

definition http_NewRequest :: "golib \<Rightarrow> string \<Rightarrow> string \<Rightarrow> string + http_Request" where
  \<comment> \<open>\<open>http.NewRequest(method, url, nil)\<close>: an error for a method that is not a token and
      for a URL that \<open>url.Parse\<close> rejects\<close>
  "http_NewRequest lib method url =
     (let m = (if method = [] then ''GET'' else method) in
      if \<not> validMethod lib m then Inl (''net/http: invalid method '' @ fmt_q lib m)
      else case url_Parse lib url of
             Inl err \<Rightarrow> Inl err
           | Inr u \<Rightarrow>
               Inr \<lparr>req_Method = m,
                    req_URL = u\<lparr>Host := removeEmptyPort lib (Host u)\<rparr>,
                    req_Host = removeEmptyPort lib (Host u),
                    req_Header = Map.empty\<rparr>)"

section \<open>The data model of main.go\<close>

text \<open>
  \<open>Headers\<close> and \<open>CORSHeaders\<close> are a Go map and a Go slice: \<open>None\<close> is \<open>nil\<close>, the
  value either has in a struct literal that does not mention it.
\<close>

record CORSTestResult =
  URL :: string
  StatusCode :: int
  Headers :: "(string \<rightharpoonup> string) option"
  Error :: string
  HasCORS :: bool
  CORSHeaders :: "string list option"
  Timestamp :: string

record Config =
  Method :: string
  cfg_Headers :: "(string \<times> string) list"
    \<comment> \<open>\<open>Config.Headers\<close>, in the order in which \<open>range\<close> visits it\<close>
  Timeout :: "64 word"
  Concurrency :: int

datatype abort = Fatal string | Panic string

definition zero_CORSTestResult :: CORSTestResult where
  "zero_CORSTestResult =
     \<lparr>URL = [], StatusCode = 0, Headers = None, Error = [], HasCORS = False,
      CORSHeaders = None, Timestamp = []\<rparr>"

definition go_append :: "'a list option \<Rightarrow> 'a \<Rightarrow> 'a list option" where
  "go_append s x = (case s of None \<Rightarrow> Some [x] | Some xs \<Rightarrow> Some (xs @ [x]))"

section \<open>isCORSHeader and isValidURL\<close>

definition corsHeaders :: "string list" where
  "corsHeaders =
     [''access-control-allow-origin'',
      ''access-control-allow-methods'',
      ''access-control-allow-headers'',
      ''access-control-allow-credentials'',
      ''access-control-expose-headers'',
      ''access-control-max-age'']"

fun isCORSHeader_loop :: "string list \<Rightarrow> string \<Rightarrow> bool" where
  "isCORSHeader_loop [] header = False"
| "isCORSHeader_loop (corsHeader # rest) header =
     (if Contains header corsHeader then True else isCORSHeader_loop rest header)"

definition isCORSHeader :: "string \<Rightarrow> bool" where
  "isCORSHeader header = isCORSHeader_loop corsHeaders header"

definition isValidURL :: "golib \<Rightarrow> string \<Rightarrow> bool" where
  "isValidURL lib urlStr =
     (case url_Parse lib urlStr of
        Inl err \<Rightarrow> False
      | Inr parsed \<Rightarrow> Scheme parsed \<noteq> [] \<and> Host parsed \<noteq> [])"

section \<open>testCORS\<close>

fun apply_headers :: "golib \<Rightarrow> (string \<times> string) list \<Rightarrow> http_Request \<Rightarrow> http_Request" where
  \<comment> \<open>lines 111-113\<close>
  "apply_headers lib [] req = req"
| "apply_headers lib ((key, v) # rest) req = apply_headers lib rest (Header_Set lib req key v)"

fun scan_headers ::
  "golib \<Rightarrow> (string \<times> string list) list \<Rightarrow> CORSTestResult \<Rightarrow> abort + CORSTestResult" where
  \<comment> \<open>lines 130-139; a store into a nil map is a run-time panic\<close>
  "scan_headers lib [] result = Inr result"
| "scan_headers lib ((key, vals) # rest) result =
     (case Headers result of
        None \<Rightarrow> Inl (Panic ''assignment to entry in nil map'')
      | Some m \<Rightarrow>
          (let headerValue = Join vals '', '';
               result1 = result\<lparr>Headers := Some (m(key \<mapsto> headerValue))\<rparr>;
               keyLower = strings_ToLower lib key;
               result2 =
                 (if isCORSHeader keyLower
                  then result1\<lparr>HasCORS := True,
                               CORSHeaders := go_append (CORSHeaders result1) key\<rparr>
                  else result1)
           in scan_headers lib rest result2))"

fun store_all ::
  "(string \<times> string list) list \<Rightarrow> (string \<rightharpoonup> string) \<Rightarrow> (string \<rightharpoonup> string)" where
  \<comment> \<open>the stores of line 132 alone, for stating what the loop leaves in \<open>Headers\<close>\<close>
  "store_all [] m = m"
| "store_all ((k, vs) # rest) m = store_all rest (m(k \<mapsto> Join vs '', ''))"

definition build_request :: "golib \<Rightarrow> string \<Rightarrow> Config \<Rightarrow> string + http_Request" where
  \<comment> \<open>lines 105-119: the request that \<open>testCORS\<close> hands to \<open>client.Do\<close>\<close>
  "build_request lib targetURL config =
     (case http_NewRequest lib (Method config) targetURL of
        Inl err \<Rightarrow> Inl err
      | Inr req \<Rightarrow>
          (let req1 = apply_headers lib (cfg_Headers config) req in
           case url_Parse lib targetURL of
             Inl err \<Rightarrow> Inr req1
           | Inr parsedURL \<Rightarrow>
               (let origin = Scheme parsedURL @ ''://'' @ Host parsedURL
                in Inr (Header_Set lib req1 ''Origin'' (origin @ ''-test.cors.com'')))))"

definition testCORS_io ::
  "golib \<Rightarrow> net \<Rightarrow> string \<Rightarrow> Config \<Rightarrow> http_Request list \<times> (abort + CORSTestResult)" where
  \<comment> \<open>\<open>testCORS\<close> with its effect: the requests given to \<open>client.Do\<close>, and what the call
      returns (\<open>Inl\<close>: it panics)\<close>
  "testCORS_io lib nt targetURL config =
     (let result = zero_CORSTestResult\<lparr>URL := targetURL, Headers := Some Map.empty,
                     Timestamp := time_Now nt, CORSHeaders := Some []\<rparr>
      in case build_request lib targetURL config of
           Inl err \<Rightarrow> ([], Inr (result\<lparr>Error := ''Error creating request: '' @ err\<rparr>))
         | Inr req \<Rightarrow>
             (case client_Do nt (Timeout config) req of
                Inl err \<Rightarrow> ([req], Inr (result\<lparr>Error := ''Request failed: '' @ err\<rparr>))
              | Inr resp \<Rightarrow>
                  ([req],
                   scan_headers lib (resp_Header resp)
                     (result\<lparr>StatusCode := resp_StatusCode resp\<rparr>))))"

definition testCORS :: "golib \<Rightarrow> net \<Rightarrow> string \<Rightarrow> Config \<Rightarrow> abort + CORSTestResult" where
  "testCORS lib nt targetURL config = snd (testCORS_io lib nt targetURL config)"

section \<open>printSummary\<close>

text \<open>
  The lines \<open>printSummary\<close> prints, with the numbers it formats into them. \<open>RateLine a b\<close>
  is the line that prints \<open>float64(a)/float64(b)*100\<close> with two decimals; \<open>RateZero\<close>
  is the literal line \<open>Success rate: 0%\<close>.
\<close>

datatype summary_line =
  Banner
| TotalLine nat
| SuccessfulLine nat
| WithCORSLine nat
| RateLine nat nat
| RateZero

fun count_loop :: "CORSTestResult list \<Rightarrow> nat \<times> nat \<Rightarrow> nat \<times> nat" where
  \<comment> \<open>lines 236-243, on the pair \<open>(successful, withCORS)\<close>\<close>
  "count_loop [] (successful, withCORS) = (successful, withCORS)"
| "count_loop (result # rest) (successful, withCORS) =
     count_loop rest
       (if Error result = [] then successful + 1 else successful,
        if HasCORS result then withCORS + 1 else withCORS)"

definition printSummary :: "CORSTestResult list \<Rightarrow> summary_line list" where
  "printSummary rs =
     (let total = length rs in
      case count_loop rs (0, 0) of
        (successful, withCORS) \<Rightarrow>
          [Banner, TotalLine total, SuccessfulLine successful, WithCORSLine withCORS,
           (if total > 0 then RateLine successful total else RateZero)])"

section \<open>testBulkCORS: reading the targets\<close>

record file_read =
  scanned :: "string list"
    \<comment> \<open>what \<open>scanner.Text()\<close> yields, one entry per successful \<open>scanner.Scan()\<close>\<close>
  scan_err :: "string option"
    \<comment> \<open>\<open>scanner.Err()\<close> after the loop\<close>

record world =
  os_Open :: "string \<Rightarrow> string + file_read"
  os_Create :: "string \<Rightarrow> string option"
    \<comment> \<open>the error of \<open>os.Create\<close>, if any\<close>
  nets :: "nat \<Rightarrow> net"
    \<comment> \<open>what the call of \<open>testCORS\<close> for the i-th target observes\<close>

fun collect_urls :: "golib \<Rightarrow> string list \<Rightarrow> string list \<Rightarrow> string list" where
  \<comment> \<open>lines 153-158, on the slice \<open>urls\<close>\<close>
  "collect_urls lib [] urls = urls"
| "collect_urls lib (line # rest) urls =
     (let url = strings_TrimSpace lib line in
      collect_urls lib rest (if url \<noteq> [] \<and> isValidURL lib url then urls @ [url] else urls))"

section \<open>testBulkCORS: the goroutines\<close>

text \<open>
  Lines 168-189 start one goroutine per target. Each goroutine is a sequence of
  operations on the shared semaphore channel, mutex, wait group and result slice, and an
  execution is an interleaving of these operations. A goroutine is described by its
  target and the point it has reached:
  \<^item> \<open>Spawned\<close>: started, about to send on \<open>semaphore\<close>;
  \<^item> \<open>Probing\<close>: the send is done, the call of \<open>testCORS\<close> is in progress;
  \<^item> \<open>Probed r\<close>: \<open>testCORS\<close> has returned \<open>r\<close>, about to \<open>mu.Lock()\<close>;
  \<^item> \<open>Locked r\<close>: holds \<open>mu\<close>, about to append;
  \<^item> \<open>Appended r\<close>: has appended, about to \<open>mu.Unlock()\<close>;
  \<^item> \<open>Unlocked r\<close>: about to run the deferred receive from \<open>semaphore\<close>;
  \<^item> \<open>Released r\<close>: about to run the deferred \<open>wg.Done()\<close>;
  \<^item> \<open>Finished r\<close>: ended.

  \<open>sem\<close> is the number of elements buffered in the channel. A send needs room in the
  buffer and a receive needs an element in it. (A send to a full or unbuffered channel
  could also be taken over by a goroutine already waiting to receive; a goroutine of this
  program receives only after its own send has been buffered, so the buffer is never empty
  while one waits to receive.)
\<close>

datatype phase =
  Spawned
| Probing
| Probed CORSTestResult
| Locked CORSTestResult
| Appended CORSTestResult
| Unlocked CORSTestResult
| Released CORSTestResult
| Finished CORSTestResult

record bulk_state =
  pending :: "string list"
    \<comment> \<open>the targets the \<open>for\<close> loop of line 173 has not reached yet\<close>
  workers :: "(string \<times> phase) list"
    \<comment> \<open>the goroutines, in the order they were started\<close>
  sem :: nat
  mu :: bool
  wg :: nat
  results :: "CORSTestResult list"
  returned :: bool
    \<comment> \<open>\<open>wg.Wait()\<close> is over and \<open>testBulkCORS\<close> has returned \<open>results\<close>\<close>
  aborted :: "abort option"
    \<comment> \<open>a goroutine has panicked\<close>

datatype action = Spawn | Go nat | Wait

definition init_state :: "string list \<Rightarrow> bulk_state" where
  "init_state urls =
     \<lparr>pending = urls, workers = [], sem = 0, mu = False, wg = 0, results = [],
      returned = False, aborted = None\<rparr>"

fun step_worker ::
  "golib \<Rightarrow> net \<Rightarrow> Config \<Rightarrow> nat \<Rightarrow> string \<Rightarrow> phase \<Rightarrow> bulk_state \<Rightarrow> bulk_state option" where
  "step_worker lib nt config i targetURL Spawned s =
     (if int (sem s) < Concurrency config
      then Some (s\<lparr>sem := sem s + 1, workers := (workers s)[i := (targetURL, Probing)]\<rparr>)
      else None)"
| "step_worker lib nt config i targetURL Probing s =
     (case testCORS lib nt targetURL config of
        Inl a \<Rightarrow> Some (s\<lparr>aborted := Some a\<rparr>)
      | Inr r \<Rightarrow> Some (s\<lparr>workers := (workers s)[i := (targetURL, Probed r)]\<rparr>))"
| "step_worker lib nt config i targetURL (Probed r) s =
     (if mu s then None
      else Some (s\<lparr>mu := True, workers := (workers s)[i := (targetURL, Locked r)]\<rparr>))"
| "step_worker lib nt config i targetURL (Locked r) s =
     Some (s\<lparr>results := results s @ [r], workers := (workers s)[i := (targetURL, Appended r)]\<rparr>)"
| "step_worker lib nt config i targetURL (Appended r) s =
     Some (s\<lparr>mu := False, workers := (workers s)[i := (targetURL, Unlocked r)]\<rparr>)"
| "step_worker lib nt config i targetURL (Unlocked r) s =
     (if sem s = 0 then None
      else Some (s\<lparr>sem := sem s - 1, workers := (workers s)[i := (targetURL, Released r)]\<rparr>))"
| "step_worker lib nt config i targetURL (Released r) s =
     (if wg s = 0 then Some (s\<lparr>aborted := Some (Panic ''sync: negative WaitGroup counter'')\<rparr>)
      else Some (s\<lparr>wg := wg s - 1, workers := (workers s)[i := (targetURL, Finished r)]\<rparr>))"
| "step_worker lib nt config i targetURL (Finished r) s = None"

definition step ::
  "golib \<Rightarrow> (nat \<Rightarrow> net) \<Rightarrow> Config \<Rightarrow> action \<Rightarrow> bulk_state \<Rightarrow> bulk_state option" where
  \<comment> \<open>one operation of the main goroutine (\<open>Spawn\<close>: one round of the loop of line 173;
      \<open>Wait\<close>: \<open>wg.Wait()\<close> returns) or of the i-th goroutine; \<open>None\<close> when it is blocked
      or has nothing left to do\<close>
  "step lib nts config a s =
     (if returned s \<or> aborted s \<noteq> None then None
      else case a of
        Spawn \<Rightarrow>
          (case pending s of
             [] \<Rightarrow> None
           | targetURL # rest \<Rightarrow>
               Some (s\<lparr>pending := rest, wg := wg s + 1,
                       workers := workers s @ [(targetURL, Spawned)]\<rparr>))
      | Go i \<Rightarrow>
          (if i < length (workers s)
           then (case workers s ! i of
                   (targetURL, ph) \<Rightarrow> step_worker lib (nts i) config i targetURL ph s)
           else None)
      | Wait \<Rightarrow>
          (if pending s = [] \<and> wg s = 0 then Some (s\<lparr>returned := True\<rparr>) else None))"

inductive reachable ::
  "golib \<Rightarrow> (nat \<Rightarrow> net) \<Rightarrow> Config \<Rightarrow> bulk_state \<Rightarrow> bulk_state \<Rightarrow> bool" where
  reachable_init: "reachable lib nts config s0 s0"
| reachable_step:
    "reachable lib nts config s0 s \<Longrightarrow> step lib nts config a s = Some s'
       \<Longrightarrow> reachable lib nts config s0 s'"

fun exec ::
  "golib \<Rightarrow> (nat \<Rightarrow> net) \<Rightarrow> Config \<Rightarrow> action list \<Rightarrow> bulk_state \<Rightarrow> bulk_state" where
  \<comment> \<open>the state after a schedule; choosing a blocked goroutine changes nothing\<close>
  "exec lib nts config [] s = s"
| "exec lib nts config (a # sched) s =
     (case step lib nts config a s of
        None \<Rightarrow> exec lib nts config sched s
      | Some s' \<Rightarrow> exec lib nts config sched s')"

definition bulk_setup :: "golib \<Rightarrow> world \<Rightarrow> string \<Rightarrow> Config \<Rightarrow> abort + bulk_state" where
  \<comment> \<open>lines 145-171: up to and including \<open>make(chan struct{}, config.Concurrency)\<close>\<close>
  "bulk_setup lib w filename config =
     (case os_Open w filename of
        Inl err \<Rightarrow> Inl (Fatal (''Error opening file: '' @ err))
      | Inr file \<Rightarrow>
          (let urls = collect_urls lib (scanned file) [] in
           case scan_err file of
             Some err \<Rightarrow> Inl (Fatal (''Error reading file: '' @ err))
           | None \<Rightarrow>
               if length urls = 0 then Inl (Fatal ''No valid URLs found in file'')
               else if Concurrency config < 0 then Inl (Panic ''makechan: size out of range'')
               else Inr (init_state urls)))"

section \<open>main\<close>

record flags =
  urlInput :: string
  fileInput :: string
  outputFile :: string
  flag_method :: string
  flag_concurrency :: int
  flag_timeout :: int
  verbose :: bool
  showVersion :: bool

datatype outcome =
  PrintedVersion
| UsageExit
| Died abort
| NotReturned
| Completed string "CORSTestResult list" "summary_line list"

text \<open>
  \<open>Died\<close>: the process ended in \<open>log.Fatal\<close> or a panic. \<open>NotReturned\<close>: under the given
  schedule \<open>testBulkCORS\<close> has not returned. \<open>Completed path rs lines\<close>: \<open>saveResults\<close>
  wrote the report of \<open>rs\<close> to \<open>path\<close> and \<open>printSummary\<close> printed \<open>lines\<close>.
\<close>

definition mk_config :: "flags \<Rightarrow> Config" where
  \<comment> \<open>lines 58-65\<close>
  "mk_config fl =
     \<lparr>Method = flag_method fl,
      cfg_Headers = [(''User-Agent'', ''CORS-Testing-Tool/1.0'')],
      Timeout = word_of_int (flag_timeout fl) * 1000000000,
      Concurrency = flag_concurrency fl\<rparr>"

definition testBulkCORS ::
  "golib \<Rightarrow> world \<Rightarrow> string \<Rightarrow> Config \<Rightarrow> action list \<Rightarrow> outcome + CORSTestResult list" where
  "testBulkCORS lib w filename config sched =
     (case bulk_setup lib w filename config of
        Inl a \<Rightarrow> Inl (Died a)
      | Inr s0 \<Rightarrow>
          (let s = exec lib (nets w) config sched s0 in
           case aborted s of
             Some a \<Rightarrow> Inl (Died a)
           | None \<Rightarrow> if returned s then Inr (results s) else Inl NotReturned))"

definition saveResults :: "world \<Rightarrow> CORSTestResult list \<Rightarrow> string \<Rightarrow> string option" where
  \<comment> \<open>the error \<open>saveResults\<close> returns: that of \<open>os.Create\<close>\<close>
  "saveResults w rs filename = os_Create w filename"

definition main :: "golib \<Rightarrow> world \<Rightarrow> flags \<Rightarrow> action list \<Rightarrow> outcome" where
  "main lib w fl sched =
     (if showVersion fl then PrintedVersion
      else if urlInput fl = [] \<and> fileInput fl = [] then UsageExit
      else
        (let config = mk_config fl in
         case (if urlInput fl \<noteq> []
               then (case testCORS lib (nets w 0) (urlInput fl) config of
                       Inl a \<Rightarrow> Inl (Died a)
                     | Inr result \<Rightarrow> Inr [result])
               else testBulkCORS lib w (fileInput fl) config sched) of
           Inl oc \<Rightarrow> oc
         | Inr rs \<Rightarrow>
             (case saveResults w rs (outputFile fl) of
                Some err \<Rightarrow> Died (Fatal (''Error saving results: '' @ err))
              | None \<Rightarrow> Completed (outputFile fl) rs (printSummary rs))))"

section \<open>The invariant of the goroutines\<close>

text \<open>
  Notions for stating what holds in every reachable state of the goroutines:
  \<^item> \<open>holding\<close>: the goroutine has sent on the semaphore and not yet received from it;
  \<^item> \<open>in_call\<close>: its call of \<open>testCORS\<close> is in progress;
  \<^item> \<open>locking\<close>: it holds the mutex;
  \<^item> \<open>live\<close>: it has not yet called \<open>wg.Done()\<close>;
  \<^item> \<open>appended_of\<close>: what it has appended to \<open>results\<close>;
  \<^item> \<open>result_of\<close>: the value of its variable \<open>result\<close>, once assigned;
  \<^item> \<open>rank\<close>: the number of operations it still has to perform;
  \<^item> \<open>remaining\<close>: the number of operations the whole of lines 173-189 still has to
    perform;
  \<^item> \<open>cnt P ws\<close>: how many of the goroutines \<open>ws\<close> are at a point that satisfies \<open>P\<close>;
  \<^item> \<open>carried\<close>: every assigned \<open>result\<close> is what \<open>testCORS\<close> returns for that
    goroutine's target;
  \<^item> \<open>bulk_inv\<close>: the invariant: the semaphore holds one element per holding goroutine
    and at most \<open>Concurrency\<close>, the mutex is held by exactly the locking goroutine, the
    wait group counts the live goroutines, \<open>results\<close> holds what has been appended, no
    goroutine has panicked, and \<open>testBulkCORS\<close> has returned only if all goroutines
    were started and the wait group is at zero.
\<close>

fun holding :: "phase \<Rightarrow> bool" where
  "holding Probing = True"
| "holding (Probed r) = True"
| "holding (Locked r) = True"
| "holding (Appended r) = True"
| "holding (Unlocked r) = True"
| "holding ph = False"


fun locking :: "phase \<Rightarrow> bool" where
  "locking (Locked r) = True"
| "locking (Appended r) = True"
| "locking ph = False"

fun live :: "phase \<Rightarrow> bool" where
  "live (Finished r) = False"
| "live ph = True"

fun appended_of :: "phase \<Rightarrow> CORSTestResult list" where
  "appended_of (Appended r) = [r]"
| "appended_of (Unlocked r) = [r]"
| "appended_of (Released r) = [r]"
| "appended_of (Finished r) = [r]"
| "appended_of ph = []"

fun result_of :: "phase \<Rightarrow> CORSTestResult option" where
  "result_of Spawned = None"
| "result_of Probing = None"
| "result_of (Probed r) = Some r"
| "result_of (Locked r) = Some r"
| "result_of (Appended r) = Some r"
| "result_of (Unlocked r) = Some r"
| "result_of (Released r) = Some r"
| "result_of (Finished r) = Some r"

fun rank :: "phase \<Rightarrow> nat" where
  "rank Spawned = 7"
| "rank Probing = 6"
| "rank (Probed r) = 5"
| "rank (Locked r) = 4"
| "rank (Appended r) = 3"
| "rank (Unlocked r) = 2"
| "rank (Released r) = 1"
| "rank (Finished r) = 0"

definition remaining :: "bulk_state \<Rightarrow> nat" where
  "remaining s =
     (if returned s then 0 else 1) + 8 * length (pending s) + sum_list (map (rank \<circ> snd) (workers s))"

definition cnt :: "(phase \<Rightarrow> bool) \<Rightarrow> (string \<times> phase) list \<Rightarrow> nat" where
  "cnt P ws = length (filter (P \<circ> snd) ws)"

definition carried :: "golib \<Rightarrow> (nat \<Rightarrow> net) \<Rightarrow> Config \<Rightarrow> (string \<times> phase) list \<Rightarrow> bool" where
  "carried lib nts config ws \<longleftrightarrow>
     (\<forall>i < length ws. \<forall>r. result_of (snd (ws ! i)) = Some r \<longrightarrow>
        testCORS lib (nts i) (fst (ws ! i)) config = Inr r)"

definition bulk_inv :: "golib \<Rightarrow> (nat \<Rightarrow> net) \<Rightarrow> Config \<Rightarrow> bulk_state \<Rightarrow> bool" where
  "bulk_inv lib nts config s \<longleftrightarrow>
     sem s = cnt holding (workers s) \<and>
     int (sem s) \<le> Concurrency config \<and>
     cnt locking (workers s) = (if mu s then 1 else 0) \<and>
     wg s = cnt live (workers s) \<and>
     mset (results s) = mset (concat (map (appended_of \<circ> snd) (workers s))) \<and>
     carried lib nts config (workers s) \<and>
     aborted s = None \<and>
     (returned s \<longrightarrow> pending s = [] \<and> wg s = 0)"

definition rk :: "(string \<times> phase) list \<Rightarrow> nat" where
  "rk ws = sum_list (map (rank \<circ> snd) ws)"

section \<open>A concrete library, network and file system\<close>

text \<open>
  One instance of the parameters, on which the model is run: an ASCII version of the
  string functions, a parser for URLs of the form \<open>scheme://host/path\<close> that rejects
  blanks, and a network of three hosts: \<open>a.test\<close> answers 200 and echoes the request's
  Origin, \<open>c.test\<close> answers 404, and every other host times out.
\<close>

definition is_space :: "char \<Rightarrow> bool" where
  "is_space c = (c = CHR '' '' \<or> c = CHR 0x09 \<or> c = CHR 0x0A \<or> c = CHR 0x0D)"

definition demo_TrimSpace :: "string \<Rightarrow> string" where
  "demo_TrimSpace s = rev (dropWhile is_space (rev (dropWhile is_space s)))"

definition ascii_lower :: "char \<Rightarrow> char" where
  "ascii_lower c =
     (case map_of (zip ''ABCDEFGHIJKLMNOPQRSTUVWXYZ'' ''abcdefghijklmnopqrstuvwxyz'') c of
        None \<Rightarrow> c
      | Some d \<Rightarrow> d)"

fun split_scheme :: "string \<Rightarrow> string \<Rightarrow> (string \<times> string) option" where
  "split_scheme acc [] = None"
| "split_scheme acc (c # cs) =
     (if prefix ''://'' (c # cs) then Some (rev acc, drop 3 (c # cs))
      else split_scheme (c # acc) cs)"

definition demo_Parse :: "string \<Rightarrow> string + url_URL" where
  "demo_Parse s =
     (if CHR '' '' \<in> set s then Inl (''parse: invalid character in URL'')
      else case split_scheme [] s of
             None \<Rightarrow> Inr \<lparr>Scheme = [], Host = []\<rparr>
           | Some (sch, rest) \<Rightarrow>
               Inr \<lparr>Scheme = sch, Host = takeWhile (\<lambda>c. c \<noteq> CHR ''/'') rest\<rparr>)"

definition demo_lib :: golib where
  "demo_lib =
     \<lparr>url_Parse = demo_Parse,
      strings_TrimSpace = demo_TrimSpace,
      strings_ToLower = map ascii_lower,
      CanonicalMIMEHeaderKey = (\<lambda>k. k),
      validMethod = (\<lambda>m. m \<noteq> [] \<and> CHR '' '' \<notin> set m),
      removeEmptyPort = (\<lambda>h. h),
      fmt_q = (\<lambda>m. m)\<rparr>"

definition demo_Do :: "64 word \<Rightarrow> http_Request \<Rightarrow> string + http_Response" where
  "demo_Do t req =
     (if req_Host req = ''a.test''
      then Inr \<lparr>resp_StatusCode = 200,
                resp_Header =
                  [(''Access-Control-Allow-Origin'',
                    (case req_Header req ''Origin'' of None \<Rightarrow> [] | Some vs \<Rightarrow> vs)),
                   (''Vary'', [''Origin'', ''Accept-Encoding''])]\<rparr>
      else if req_Host req = ''c.test''
      then Inr \<lparr>resp_StatusCode = 404, resp_Header = [(''Content-Type'', [''text/html''])]\<rparr>
      else Inl ''context deadline exceeded'')"

definition demo_net :: net where
  "demo_net = \<lparr>time_Now = ''2024-01-01T00:00:00Z'', client_Do = demo_Do\<rparr>"

definition demo_world :: world where
  "demo_world =
     \<lparr>os_Open =
        (\<lambda>name.
           if name = ''urls.txt''
           then Inr \<lparr>scanned = [''http://a.test/'', [], ''  http://b.test/  '', ''a.test'',
                                 ''http://c d/''],
                     scan_err = None\<rparr>
           else if name = ''blank.txt''
           then Inr \<lparr>scanned = [[], ''   '', ''a.test''], scan_err = None\<rparr>
           else if name = ''empty.txt''
           then Inr \<lparr>scanned = [], scan_err = None\<rparr>
           else Inl ''open: no such file or directory''),
      os_Create = (\<lambda>name. None),
      nets = (\<lambda>i. demo_net)\<rparr>"

definition demo_config :: "int \<Rightarrow> Config" where
  "demo_config c =
     \<lparr>Method = ''GET'', cfg_Headers = [(''User-Agent'', ''CORS-Testing-Tool/1.0'')],
      Timeout = 10000000000, Concurrency = c\<rparr>"

definition demo_flags :: "string \<Rightarrow> int \<Rightarrow> flags" where
  "demo_flags file c =
     \<lparr>urlInput = [], fileInput = file, outputFile = ''cors_results.txt'',
      flag_method = ''GET'', flag_concurrency = c, flag_timeout = 10, verbose = False,
      showVersion = False\<rparr>"

definition demo_schedule :: "action list" where
  \<comment> \<open>both goroutines are started, then each runs to its end, then \<open>wg.Wait()\<close> returns\<close>
  "demo_schedule = [Spawn, Spawn] @ replicate 7 (Go 0) @ replicate 7 (Go 1) @ [Wait]"

definition demo_result_a :: CORSTestResult where
  "demo_result_a =
     \<lparr>URL = ''http://a.test/'', StatusCode = 200,
      Headers = Some [''Access-Control-Allow-Origin'' \<mapsto> ''http://a.test-test.cors.com'',
                      ''Vary'' \<mapsto> ''Origin, Accept-Encoding''],
      Error = [], HasCORS = True, CORSHeaders = Some [''Access-Control-Allow-Origin''],
      Timestamp = ''2024-01-01T00:00:00Z''\<rparr>"

definition demo_result_b :: CORSTestResult where
  "demo_result_b =
     \<lparr>URL = ''http://b.test/'', StatusCode = 0, Headers = Some Map.empty,
      Error = ''Request failed: context deadline exceeded'', HasCORS = False,
      CORSHeaders = Some [], Timestamp = ''2024-01-01T00:00:00Z''\<rparr>"

definition demo_prefix :: "action list" where
  "demo_prefix = [Spawn, Spawn, Go 0, Go 1]"

section \<open>Properties of testCORS\<close>


lemma isCORSHeader_loop_iff:
  "isCORSHeader_loop cs h \<longleftrightarrow> (\<exists>c \<in> set cs. sublist c h)"
  by (induction cs) (auto simp: Contains_def)

lemma isCORSHeader_iff:
  "isCORSHeader h \<longleftrightarrow> (\<exists>c \<in> set corsHeaders. sublist c h)"
  by (simp add: isCORSHeader_def isCORSHeader_loop_iff)

lemma scan_headers_eq:
  "Headers r = Some m \<Longrightarrow> CORSHeaders r = Some hs \<Longrightarrow>
   scan_headers lib hdrs r =
     Inr (r\<lparr>Headers := Some (store_all hdrs m),
            HasCORS := HasCORS r \<or> (\<exists>k \<in> set (map fst hdrs). isCORSHeader (strings_ToLower lib k)),
            CORSHeaders := Some (hs @ filter (\<lambda>k. isCORSHeader (strings_ToLower lib k)) (map fst hdrs))\<rparr>)"
proof (induction hdrs arbitrary: r m hs)
  case Nil
  then show ?case by simp
next
  case (Cons h hdrs)
  obtain k vs where h: "h = (k, vs)" by (cases h)
  define m' where "m' = m(k \<mapsto> Join vs '', '')"
  show ?case
  proof (cases "isCORSHeader (strings_ToLower lib k)")
    case True
    define r' where "r' = r\<lparr>Headers := Some m', HasCORS := True, CORSHeaders := Some (hs @ [k])\<rparr>"
    have "scan_headers lib (h # hdrs) r = scan_headers lib hdrs r'"
      using Cons.prems h True by (simp add: r'_def m'_def go_append_def)
    also have "\<dots> = Inr (r'\<lparr>Headers := Some (store_all hdrs m'),
            HasCORS := HasCORS r' \<or> (\<exists>k \<in> set (map fst hdrs). isCORSHeader (strings_ToLower lib k)),
            CORSHeaders := Some ((hs @ [k]) @ filter (\<lambda>k. isCORSHeader (strings_ToLower lib k)) (map fst hdrs))\<rparr>)"
      by (rule Cons.IH) (simp_all add: r'_def)
    finally show ?thesis
      using True h by (simp add: r'_def m'_def)
  next
    case False
    define r' where "r' = r\<lparr>Headers := Some m'\<rparr>"
    have "scan_headers lib (h # hdrs) r = scan_headers lib hdrs r'"
      using Cons.prems h False by (simp add: r'_def m'_def)
    also have "\<dots> = Inr (r'\<lparr>Headers := Some (store_all hdrs m'),
            HasCORS := HasCORS r' \<or> (\<exists>k \<in> set (map fst hdrs). isCORSHeader (strings_ToLower lib k)),
            CORSHeaders := Some (hs @ filter (\<lambda>k. isCORSHeader (strings_ToLower lib k)) (map fst hdrs))\<rparr>)"
      by (rule Cons.IH) (simp_all add: r'_def Cons.prems)
    finally show ?thesis
      using False h by (simp add: r'_def m'_def)
  qed
qed

lemma store_all_notin:
  "k \<notin> fst ` set hdrs \<Longrightarrow> store_all hdrs m k = m k"
proof (induction hdrs arbitrary: m)
  case Nil
  then show ?case by simp
next
  case (Cons h hdrs)
  then show ?case by (cases h) auto
qed

lemma store_all_in:
  "distinct (map fst hdrs) \<Longrightarrow> (k, vs) \<in> set hdrs \<Longrightarrow>
   store_all hdrs m k = Some (Join vs '', '')"
proof (induction hdrs arbitrary: m)
  case Nil
  then show ?case by simp
next
  case (Cons h hdrs)
  then show ?case by (cases h) (auto simp: store_all_notin rev_image_eqI)
qed

lemma store_all_dom:
  "dom (store_all hdrs m) = dom m \<union> fst ` set hdrs"
proof (induction hdrs arbitrary: m)
  case Nil
  then show ?case by simp
next
  case (Cons h hdrs)
  then show ?case by (cases h) auto
qed

lemma apply_headers_keeps:
  "req_Method (apply_headers lib hs req) = req_Method req \<and>
   req_URL (apply_headers lib hs req) = req_URL req \<and>
   req_Host (apply_headers lib hs req) = req_Host req"
  by (induction hs arbitrary: req) (auto simp: Header_Set_def)

lemma build_request_cases:
  "build_request lib t cfg = Inl err \<longleftrightarrow> http_NewRequest lib (Method cfg) t = Inl err"
  by (auto simp: build_request_def Let_def split: sum.splits)

lemma NewRequest_parse_fail:
  "url_Parse lib t = Inl e \<Longrightarrow> \<exists>err. http_NewRequest lib m t = Inl err"
  by (simp add: http_NewRequest_def Let_def)

lemma NewRequest_ok_parse:
  "http_NewRequest lib m t = Inr req \<Longrightarrow> \<exists>u. url_Parse lib t = Inr u"
  by (auto simp: http_NewRequest_def Let_def split: if_splits sum.splits)

lemma build_request_Origin:
  assumes "build_request lib t cfg = Inr req"
  shows "\<exists>u. url_Parse lib t = Inr u \<and>
           req_Header req (CanonicalMIMEHeaderKey lib ''Origin'') =
             Some [Scheme u @ ''://'' @ Host u @ ''-test.cors.com'']"
  using assms NewRequest_ok_parse [of lib "Method cfg" t]
  by (auto simp: build_request_def Let_def Header_Set_def split: sum.splits)

lemma testCORS_io_cases:
  "testCORS_io lib nt t cfg =
     (let result = \<lparr>URL = t, StatusCode = 0, Headers = Some Map.empty, Error = [],
                     HasCORS = False, CORSHeaders = Some [], Timestamp = time_Now nt\<rparr>
      in case build_request lib t cfg of
           Inl err \<Rightarrow> ([], Inr (result\<lparr>Error := ''Error creating request: '' @ err\<rparr>))
         | Inr req \<Rightarrow>
             (case client_Do nt (Timeout cfg) req of
                Inl err \<Rightarrow> ([req], Inr (result\<lparr>Error := ''Request failed: '' @ err\<rparr>))
              | Inr resp \<Rightarrow>
                  ([req],
                   Inr \<lparr>URL = t, StatusCode = resp_StatusCode resp,
                        Headers = Some (store_all (resp_Header resp) Map.empty),
                        Error = [],
                        HasCORS = (\<exists>k \<in> set (map fst (resp_Header resp)).
                                     isCORSHeader (strings_ToLower lib k)),
                        CORSHeaders = Some (filter (\<lambda>k. isCORSHeader (strings_ToLower lib k))
                                              (map fst (resp_Header resp))),
                        Timestamp = time_Now nt\<rparr>)))"
  by (simp add: testCORS_io_def zero_CORSTestResult_def Let_def
        scan_headers_eq [where m = Map.empty and hs = "[]"] split: sum.splits)

lemma testCORS_cases:
  "testCORS lib nt t cfg =
     (let result = \<lparr>URL = t, StatusCode = 0, Headers = Some Map.empty, Error = [],
                     HasCORS = False, CORSHeaders = Some [], Timestamp = time_Now nt\<rparr>
      in case build_request lib t cfg of
           Inl err \<Rightarrow> Inr (result\<lparr>Error := ''Error creating request: '' @ err\<rparr>)
         | Inr req \<Rightarrow>
             (case client_Do nt (Timeout cfg) req of
                Inl err \<Rightarrow> Inr (result\<lparr>Error := ''Request failed: '' @ err\<rparr>)
              | Inr resp \<Rightarrow>
                   Inr \<lparr>URL = t, StatusCode = resp_StatusCode resp,
                        Headers = Some (store_all (resp_Header resp) Map.empty),
                        Error = [],
                        HasCORS = (\<exists>k \<in> set (map fst (resp_Header resp)).
                                     isCORSHeader (strings_ToLower lib k)),
                        CORSHeaders = Some (filter (\<lambda>k. isCORSHeader (strings_ToLower lib k))
                                              (map fst (resp_Header resp))),
                        Timestamp = time_Now nt\<rparr>))"
  by (simp add: testCORS_def testCORS_io_cases Let_def split: sum.splits)

lemma sent_cases:
  "fst (testCORS_io lib nt t cfg) =
     (case build_request lib t cfg of Inl err \<Rightarrow> [] | Inr req \<Rightarrow> [req])"
  by (simp add: testCORS_io_cases Let_def split: sum.splits)

lemma testCORS_returns: "\<exists>r. testCORS lib nt t cfg = Inr r"
  by (simp add: testCORS_cases Let_def split: sum.splits)

lemma testCORS_URL: "testCORS lib nt t cfg = Inr r \<Longrightarrow> URL r = t"
  by (auto simp: testCORS_cases Let_def split: sum.splits)

subsection \<open>The concrete library and network, evaluated\<close>

lemma demo_parse_a: "url_Parse demo_lib ''http://a.test/'' = Inr \<lparr>Scheme = ''http'', Host = ''a.test''\<rparr>"
  by (simp add: demo_lib_def demo_Parse_def)
lemma demo_parse_b: "url_Parse demo_lib ''http://b.test/'' = Inr \<lparr>Scheme = ''http'', Host = ''b.test''\<rparr>"
  by (simp add: demo_lib_def demo_Parse_def)
lemma demo_parse_c: "url_Parse demo_lib ''http://c.test/'' = Inr \<lparr>Scheme = ''http'', Host = ''c.test''\<rparr>"
  by (simp add: demo_lib_def demo_Parse_def)
lemma demo_parse_bad: "url_Parse demo_lib ''http://c d/'' = Inl ''parse: invalid character in URL''"
  by (simp add: demo_lib_def demo_Parse_def)

lemma demo_build_a:
  "build_request demo_lib ''http://a.test/'' (demo_config c) =
     Inr \<lparr>req_Method = ''GET'', req_URL = \<lparr>Scheme = ''http'', Host = ''a.test''\<rparr>,
          req_Host = ''a.test'',
          req_Header = [''User-Agent'' \<mapsto> [''CORS-Testing-Tool/1.0''],
                        ''Origin'' \<mapsto> [''http://a.test-test.cors.com'']]\<rparr>"
  by (simp add: build_request_def http_NewRequest_def demo_lib_def demo_Parse_def demo_config_def
        Header_Set_def)

lemma demo_build_b:
  "build_request demo_lib ''http://b.test/'' (demo_config c) =
     Inr \<lparr>req_Method = ''GET'', req_URL = \<lparr>Scheme = ''http'', Host = ''b.test''\<rparr>,
          req_Host = ''b.test'',
          req_Header = [''User-Agent'' \<mapsto> [''CORS-Testing-Tool/1.0''],
                        ''Origin'' \<mapsto> [''http://b.test-test.cors.com'']]\<rparr>"
  by (simp add: build_request_def http_NewRequest_def demo_lib_def demo_Parse_def demo_config_def
        Header_Set_def)

lemma demo_build_c:
  "build_request demo_lib ''http://c.test/'' (demo_config c) =
     Inr \<lparr>req_Method = ''GET'', req_URL = \<lparr>Scheme = ''http'', Host = ''c.test''\<rparr>,
          req_Host = ''c.test'',
          req_Header = [''User-Agent'' \<mapsto> [''CORS-Testing-Tool/1.0''],
                        ''Origin'' \<mapsto> [''http://c.test-test.cors.com'']]\<rparr>"
  by (simp add: build_request_def http_NewRequest_def demo_lib_def demo_Parse_def demo_config_def
        Header_Set_def)

lemma demo_build_bad:
  "build_request demo_lib ''http://c d/'' (demo_config c) = Inl ''parse: invalid character in URL''"
  by (simp add: build_request_def http_NewRequest_def demo_lib_def demo_Parse_def demo_config_def)

lemma demo_lower_acao:
  "strings_ToLower demo_lib ''Access-Control-Allow-Origin'' = ''access-control-allow-origin''"
  by (simp add: demo_lib_def ascii_lower_def)

lemma demo_lower_vary: "strings_ToLower demo_lib ''Vary'' = ''vary''"
  by (simp add: demo_lib_def ascii_lower_def)

lemma demo_lower_ct: "strings_ToLower demo_lib ''Content-Type'' = ''content-type''"
  by (simp add: demo_lib_def ascii_lower_def)

lemma demo_is_acao: "isCORSHeader ''access-control-allow-origin''"
  by (simp add: isCORSHeader_def corsHeaders_def Contains_def)

lemma demo_not_vary: "\<not> isCORSHeader ''vary''"
  by (simp add: isCORSHeader_def corsHeaders_def Contains_def sublist_Cons_right)

lemma demo_not_ct: "\<not> isCORSHeader ''content-type''"
  by (simp add: isCORSHeader_def corsHeaders_def Contains_def sublist_Cons_right)

lemma demo_Do_a:
  "client_Do demo_net tmo
     \<lparr>req_Method = ''GET'', req_URL = \<lparr>Scheme = ''http'', Host = ''a.test''\<rparr>,
      req_Host = ''a.test'',
      req_Header = [''User-Agent'' \<mapsto> [''CORS-Testing-Tool/1.0''],
                    ''Origin'' \<mapsto> [''http://a.test-test.cors.com'']]\<rparr> =
   Inr \<lparr>resp_StatusCode = 200,
        resp_Header = [(''Access-Control-Allow-Origin'', [''http://a.test-test.cors.com'']),
                       (''Vary'', [''Origin'', ''Accept-Encoding''])]\<rparr>"
  by (simp add: demo_net_def demo_Do_def)

lemma demo_Do_b:
  "client_Do demo_net tmo
     \<lparr>req_Method = ''GET'', req_URL = \<lparr>Scheme = ''http'', Host = ''b.test''\<rparr>,
      req_Host = ''b.test'',
      req_Header = [''User-Agent'' \<mapsto> [''CORS-Testing-Tool/1.0''],
                    ''Origin'' \<mapsto> [''http://b.test-test.cors.com'']]\<rparr> =
   Inl ''context deadline exceeded''"
  by (simp add: demo_net_def demo_Do_def)

lemma demo_Do_c:
  "client_Do demo_net tmo
     \<lparr>req_Method = ''GET'', req_URL = \<lparr>Scheme = ''http'', Host = ''c.test''\<rparr>,
      req_Host = ''c.test'',
      req_Header = [''User-Agent'' \<mapsto> [''CORS-Testing-Tool/1.0''],
                    ''Origin'' \<mapsto> [''http://c.test-test.cors.com'']]\<rparr> =
   Inr \<lparr>resp_StatusCode = 404, resp_Header = [(''Content-Type'', [''text/html''])]\<rparr>"
  by (simp add: demo_net_def demo_Do_def)

lemma demo_testCORS_a:
  "testCORS demo_lib demo_net ''http://a.test/'' (demo_config c) =
     Inr \<lparr>URL = ''http://a.test/'', StatusCode = 200,
          Headers = Some [''Access-Control-Allow-Origin'' \<mapsto> ''http://a.test-test.cors.com'',
                          ''Vary'' \<mapsto> ''Origin, Accept-Encoding''],
          Error = [], HasCORS = True, CORSHeaders = Some [''Access-Control-Allow-Origin''],
          Timestamp = ''2024-01-01T00:00:00Z''\<rparr>"
  by (simp add: testCORS_cases demo_build_a demo_Do_a demo_lower_acao demo_lower_vary
        demo_is_acao demo_not_vary)
     (simp add: demo_net_def)

lemma demo_testCORS_b:
  "testCORS demo_lib demo_net ''http://b.test/'' (demo_config c) =
     Inr \<lparr>URL = ''http://b.test/'', StatusCode = 0, Headers = Some Map.empty,
          Error = ''Request failed: context deadline exceeded'', HasCORS = False,
          CORSHeaders = Some [], Timestamp = ''2024-01-01T00:00:00Z''\<rparr>"
  by (simp add: testCORS_cases demo_build_b demo_Do_b)
     (simp add: demo_net_def)

lemma demo_testCORS_bad:
  "testCORS demo_lib demo_net ''http://c d/'' (demo_config c) =
     Inr \<lparr>URL = ''http://c d/'', StatusCode = 0, Headers = Some Map.empty,
          Error = ''Error creating request: parse: invalid character in URL'', HasCORS = False,
          CORSHeaders = Some [], Timestamp = ''2024-01-01T00:00:00Z''\<rparr>"
  by (simp add: testCORS_cases demo_build_bad)
     (simp add: demo_net_def)

lemma demo_testCORS_c:
  "testCORS demo_lib demo_net ''http://c.test/'' (demo_config c) =
     Inr \<lparr>URL = ''http://c.test/'', StatusCode = 404,
          Headers = Some [''Content-Type'' \<mapsto> ''text/html''],
          Error = [], HasCORS = False, CORSHeaders = Some [],
          Timestamp = ''2024-01-01T00:00:00Z''\<rparr>"
  by (simp add: testCORS_cases demo_build_c demo_Do_c demo_lower_ct demo_not_ct)
     (simp add: demo_net_def)

subsection \<open>The claims about testCORS\<close>

text \<open>
  Claim C3. When \<open>client.Do\<close> returns a response, \<open>testCORS\<close> returns a result whose
  header map has exactly the response's header names as keys, each mapped to its values
  joined with a comma and a blank; the CORS-header list holds, in the order of the
  iteration and under their original spelling, exactly the header names whose lower-cased
  form contains one of the six strings of \<open>corsHeaders\<close>; the has-CORS flag is true
  exactly when there is such a name; and a response without such a name yields a false
  flag and an empty list. (The response's headers are a Go map, so every name occurs
  once in the iteration.)
\<close>
theorem testCORS_header_scan:
  assumes "build_request lib targetURL config = Inr req"
    and "client_Do nt (Timeout config) req = Inr resp"
    and "distinct (map fst (resp_Header resp))"
  shows "\<exists>r m. testCORS lib nt targetURL config = Inr r \<and> Headers r = Some m \<and>
           dom m = fst ` set (resp_Header resp) \<and>
           (\<forall>(key, vals) \<in> set (resp_Header resp). m key = Some (Join vals '', '')) \<and>
           CORSHeaders r =
             Some (filter (\<lambda>key. \<exists>c \<in> set corsHeaders. Contains (strings_ToLower lib key) c)
                     (map fst (resp_Header resp))) \<and>
           HasCORS r =
             (\<exists>key \<in> fst ` set (resp_Header resp).
                \<exists>c \<in> set corsHeaders. Contains (strings_ToLower lib key) c) \<and>
           ((\<forall>key \<in> fst ` set (resp_Header resp).
               \<forall>c \<in> set corsHeaders. \<not> Contains (strings_ToLower lib key) c)
             \<longrightarrow> \<not> HasCORS r \<and> CORSHeaders r = Some [])"
proof -
  let ?hs = "resp_Header resp"
  let ?P = "\<lambda>key. \<exists>c \<in> set corsHeaders. Contains (strings_ToLower lib key) c"
  have P: "isCORSHeader (strings_ToLower lib key) = ?P key" for key
    by (simp add: isCORSHeader_iff Contains_def)
  obtain r where r: "testCORS lib nt targetURL config = Inr r"
    using testCORS_returns by blast
  have fields: "Headers r = Some (store_all ?hs Map.empty)"
      "CORSHeaders r = Some (filter ?P (map fst ?hs))"
      "HasCORS r = (\<exists>key \<in> fst ` set ?hs. ?P key)"
    using r assms(1,2) by (simp_all add: testCORS_cases P) force+
  have look: "\<forall>(key, vals) \<in> set ?hs. store_all ?hs Map.empty key = Some (Join vals '', '')"
    using assms(3) by (auto simp: store_all_in)
  have none: "(\<forall>key \<in> fst ` set ?hs. \<not> ?P key) \<longrightarrow> filter ?P (map fst ?hs) = []"
    by (auto simp: filter_empty_conv)
  show ?thesis
    using r fields look none by (simp add: store_all_dom)
qed

text \<open>The theorem at the response of \<open>a.test\<close>, which has one CORS header and one other.\<close>
theorem testCORS_header_scan_witness:
  "client_Do demo_net (Timeout (demo_config 2))
     \<lparr>req_Method = ''GET'', req_URL = \<lparr>Scheme = ''http'', Host = ''a.test''\<rparr>,
      req_Host = ''a.test'',
      req_Header = [''User-Agent'' \<mapsto> [''CORS-Testing-Tool/1.0''],
                    ''Origin'' \<mapsto> [''http://a.test-test.cors.com'']]\<rparr> =
     Inr \<lparr>resp_StatusCode = 200,
          resp_Header = [(''Access-Control-Allow-Origin'', [''http://a.test-test.cors.com'']),
                         (''Vary'', [''Origin'', ''Accept-Encoding''])]\<rparr> \<and>
   distinct [''Access-Control-Allow-Origin'', ''Vary''] \<and>
   (\<exists>r m. testCORS demo_lib demo_net ''http://a.test/'' (demo_config 2) = Inr r \<and>
      Headers r = Some m \<and>
      dom m = {''Access-Control-Allow-Origin'', ''Vary''} \<and>
      m ''Access-Control-Allow-Origin'' = Some ''http://a.test-test.cors.com'' \<and>
      m ''Vary'' = Some ''Origin, Accept-Encoding'' \<and>
      CORSHeaders r = Some [''Access-Control-Allow-Origin''] \<and> HasCORS r)"
proof -
  have d: "distinct (map fst (resp_Header
      \<lparr>resp_StatusCode = 200,
       resp_Header = [(''Access-Control-Allow-Origin'', [''http://a.test-test.cors.com'']),
                      (''Vary'', [''Origin'', ''Accept-Encoding''])]\<rparr>))"
    by simp
  show ?thesis
    using testCORS_header_scan
      [OF demo_build_a [of 2] demo_Do_a [of "Timeout (demo_config 2)"] d]
    by (simp add: demo_testCORS_a demo_Do_a)
qed

text \<open>
  Claim C4. Every request that \<open>testCORS\<close> hands to \<open>client.Do\<close> carries, as its Origin
  header, the scheme and host of the parsed target URL joined by \<open>://\<close> and followed by
  the fixed suffix \<open>-test.cors.com\<close>; this value differs from the target's own
  \<open>scheme://host\<close>.
\<close>
theorem spoofed_Origin:
  "\<forall>req \<in> set (fst (testCORS_io lib nt targetURL config)).
     \<exists>u. url_Parse lib targetURL = Inr u \<and>
       req_Header req (CanonicalMIMEHeaderKey lib ''Origin'') =
         Some [Scheme u @ ''://'' @ Host u @ ''-test.cors.com''] \<and>
       Scheme u @ ''://'' @ Host u @ ''-test.cors.com'' \<noteq> Scheme u @ ''://'' @ Host u"
proof
  fix req
  assume "req \<in> set (fst (testCORS_io lib nt targetURL config))"
  then have "build_request lib targetURL config = Inr req"
    by (simp add: sent_cases split: sum.splits)
  then show "\<exists>u. url_Parse lib targetURL = Inr u \<and>
       req_Header req (CanonicalMIMEHeaderKey lib ''Origin'') =
         Some [Scheme u @ ''://'' @ Host u @ ''-test.cors.com''] \<and>
       Scheme u @ ''://'' @ Host u @ ''-test.cors.com'' \<noteq> Scheme u @ ''://'' @ Host u"
    using build_request_Origin by fastforce
qed

lemma demo_sent_a:
  "fst (testCORS_io demo_lib demo_net ''http://a.test/'' (demo_config 2)) =
     [\<lparr>req_Method = ''GET'', req_URL = \<lparr>Scheme = ''http'', Host = ''a.test''\<rparr>,
          req_Host = ''a.test'',
          req_Header = [''User-Agent'' \<mapsto> [''CORS-Testing-Tool/1.0''],
                        ''Origin'' \<mapsto> [''http://a.test-test.cors.com'']]\<rparr>]"
  by (simp add: sent_cases demo_build_a)

theorem spoofed_Origin_witness:
  "fst (testCORS_io demo_lib demo_net ''http://a.test/'' (demo_config 2)) =
     [\<lparr>req_Method = ''GET'', req_URL = \<lparr>Scheme = ''http'', Host = ''a.test''\<rparr>,
          req_Host = ''a.test'',
          req_Header = [''User-Agent'' \<mapsto> [''CORS-Testing-Tool/1.0''],
                        ''Origin'' \<mapsto> [''http://a.test-test.cors.com'']]\<rparr>] \<and>
   url_Parse demo_lib ''http://a.test/'' = Inr \<lparr>Scheme = ''http'', Host = ''a.test''\<rparr> \<and>
   ''http://a.test-test.cors.com'' \<noteq> ''http://a.test''"
  using spoofed_Origin [of demo_lib demo_net "''http://a.test/''" "demo_config 2"]
  by (simp add: demo_sent_a demo_parse_a)

text \<open>
  Claim C9. \<open>testCORS\<close> always returns a result; in it the header map and the CORS-header
  list are initialised (not nil), and the has-CORS flag is true exactly when the
  CORS-header list is non-empty, so a false flag comes with an empty list.
\<close>
theorem testCORS_initialised:
  "\<exists>r m hs. testCORS lib nt targetURL config = Inr r \<and> Headers r = Some m \<and>
     CORSHeaders r = Some hs \<and> HasCORS r = (hs \<noteq> [])"
  by (auto simp: testCORS_cases Let_def filter_empty_conv split: sum.splits)

theorem testCORS_initialised_witness:
  "testCORS demo_lib demo_net ''http://b.test/'' (demo_config 2) =
     Inr \<lparr>URL = ''http://b.test/'', StatusCode = 0, Headers = Some Map.empty,
          Error = ''Request failed: context deadline exceeded'', HasCORS = False,
          CORSHeaders = Some [], Timestamp = ''2024-01-01T00:00:00Z''\<rparr>"
  using testCORS_initialised [of demo_lib demo_net "''http://b.test/''" "demo_config 2"]
  by (simp add: demo_testCORS_b)

text \<open>
  A response with a non-2xx status is not treated as a failure: \<open>testCORS\<close> never looks
  at the status code. For the 404 response of \<open>c.test\<close> the result has an empty error
  field, status code 404 and the response's header.
\<close>
theorem non2xx_counterexample:
  "client_Do demo_net (Timeout (demo_config 2))
     \<lparr>req_Method = ''GET'', req_URL = \<lparr>Scheme = ''http'', Host = ''c.test''\<rparr>,
      req_Host = ''c.test'',
      req_Header = [''User-Agent'' \<mapsto> [''CORS-Testing-Tool/1.0''],
                    ''Origin'' \<mapsto> [''http://c.test-test.cors.com'']]\<rparr> =
     Inr \<lparr>resp_StatusCode = 404, resp_Header = [(''Content-Type'', [''text/html''])]\<rparr> \<and>
   testCORS_io demo_lib demo_net ''http://c.test/'' (demo_config 2) =
     ([\<lparr>req_Method = ''GET'', req_URL = \<lparr>Scheme = ''http'', Host = ''c.test''\<rparr>,
        req_Host = ''c.test'',
        req_Header = [''User-Agent'' \<mapsto> [''CORS-Testing-Tool/1.0''],
                      ''Origin'' \<mapsto> [''http://c.test-test.cors.com'']]\<rparr>],
      Inr \<lparr>URL = ''http://c.test/'', StatusCode = 404,
           Headers = Some [''Content-Type'' \<mapsto> ''text/html''],
           Error = [], HasCORS = False, CORSHeaders = Some [],
           Timestamp = ''2024-01-01T00:00:00Z''\<rparr>)"
proof -
  have "fst (testCORS_io demo_lib demo_net ''http://c.test/'' (demo_config 2)) =
     [\<lparr>req_Method = ''GET'', req_URL = \<lparr>Scheme = ''http'', Host = ''c.test''\<rparr>,
        req_Host = ''c.test'',
        req_Header = [''User-Agent'' \<mapsto> [''CORS-Testing-Tool/1.0''],
                      ''Origin'' \<mapsto> [''http://c.test-test.cors.com'']]\<rparr>]"
    by (simp add: sent_cases demo_build_c)
  moreover have "snd (testCORS_io demo_lib demo_net ''http://c.test/'' (demo_config 2)) =
      Inr \<lparr>URL = ''http://c.test/'', StatusCode = 404,
           Headers = Some [''Content-Type'' \<mapsto> ''text/html''],
           Error = [], HasCORS = False, CORSHeaders = Some [],
           Timestamp = ''2024-01-01T00:00:00Z''\<rparr>"
    using demo_testCORS_c [of 2] by (simp add: testCORS_def)
  ultimately show ?thesis
    by (simp add: demo_Do_c prod_eq_iff)
qed

lemma build_request_bad_method:
  "\<not> validMethod lib (if Method config = [] then ''GET'' else Method config) \<Longrightarrow>
   build_request lib targetURL config =
     Inl (''net/http: invalid method '' @
          fmt_q lib (if Method config = [] then ''GET'' else Method config))"
  by (simp add: build_request_def http_NewRequest_def Let_def)

lemma build_request_bad_url:
  "validMethod lib (if Method config = [] then ''GET'' else Method config) \<Longrightarrow>
   url_Parse lib targetURL = Inl e \<Longrightarrow> build_request lib targetURL config = Inl e"
  by (simp add: build_request_def http_NewRequest_def Let_def)

lemma demo_build_bad_method:
  "build_request demo_lib ''http://a.test/'' ((demo_config c)\<lparr>Method := ''G T''\<rparr>) =
     Inl ''net/http: invalid method G T''"
  by (simp add: build_request_def http_NewRequest_def demo_lib_def demo_config_def)

lemma demo_testCORS_bad_method:
  "testCORS demo_lib demo_net ''http://a.test/'' ((demo_config c)\<lparr>Method := ''G T''\<rparr>) =
     Inr \<lparr>URL = ''http://a.test/'', StatusCode = 0, Headers = Some Map.empty,
          Error = ''Error creating request: net/http: invalid method G T'', HasCORS = False,
          CORSHeaders = Some [], Timestamp = ''2024-01-01T00:00:00Z''\<rparr>"
  by (simp add: testCORS_cases demo_build_bad_method)
     (simp add: demo_net_def)

text \<open>
  Claim C2, amended. \<open>testCORS\<close> always returns one result, for the target it was given,
  and never panics. The request cannot be built when the method is invalid and when
  \<open>url.Parse\<close> rejects the target; then no request is sent, and the result has the error
  \<open>Error creating request: ...\<close>, status code 0, an empty header map and CORS-header
  list and a false has-CORS flag. Otherwise exactly one request is sent: if \<open>client.Do\<close>
  fails (connection failure, timeout), the result has the error \<open>Request failed: ...\<close>,
  status code 0, an empty header map and CORS-header list and a false has-CORS flag; if
  \<open>client.Do\<close> returns a response, of whatever status, the error field is empty, the
  status code is the response's, and the header map holds the response's headers: its
  keys are the response's header names, each mapped to its values joined with a comma
  and a blank.
\<close>
theorem testCORS_failure_paths:
  "\<exists>r. testCORS lib nt targetURL config = Inr r \<and> URL r = targetURL \<and>
     (\<forall>e. url_Parse lib targetURL = Inl e \<longrightarrow>
        (\<exists>err. build_request lib targetURL config = Inl err)) \<and>
     (\<not> validMethod lib (if Method config = [] then ''GET'' else Method config) \<longrightarrow>
        build_request lib targetURL config =
          Inl (''net/http: invalid method '' @
               fmt_q lib (if Method config = [] then ''GET'' else Method config))) \<and>
     (validMethod lib (if Method config = [] then ''GET'' else Method config) \<longrightarrow>
        (\<forall>e. url_Parse lib targetURL = Inl e \<longrightarrow> build_request lib targetURL config = Inl e)) \<and>
     (\<forall>err. build_request lib targetURL config = Inl err \<longrightarrow>
        fst (testCORS_io lib nt targetURL config) = [] \<and>
        Error r = ''Error creating request: '' @ err \<and> Error r \<noteq> [] \<and>
        StatusCode r = 0 \<and> Headers r = Some Map.empty \<and> CORSHeaders r = Some [] \<and>
        \<not> HasCORS r) \<and>
     (\<forall>req. build_request lib targetURL config = Inr req \<longrightarrow>
        fst (testCORS_io lib nt targetURL config) = [req] \<and>
        (\<forall>err. client_Do nt (Timeout config) req = Inl err \<longrightarrow>
           Error r = ''Request failed: '' @ err \<and> Error r \<noteq> [] \<and>
           StatusCode r = 0 \<and> Headers r = Some Map.empty \<and> CORSHeaders r = Some [] \<and>
           \<not> HasCORS r) \<and>
        (\<forall>resp. client_Do nt (Timeout config) req = Inr resp \<longrightarrow>
           Error r = [] \<and> StatusCode r = resp_StatusCode resp \<and>
           Headers r = Some (store_all (resp_Header resp) Map.empty) \<and>
           dom (store_all (resp_Header resp) Map.empty) = fst ` set (resp_Header resp) \<and>
           (distinct (map fst (resp_Header resp)) \<longrightarrow>
              (\<forall>(key, vals) \<in> set (resp_Header resp).
                 store_all (resp_Header resp) Map.empty key = Some (Join vals '', '')))))"
proof -
  obtain r where r: "testCORS lib nt targetURL config = Inr r"
    using testCORS_returns by blast
  have url: "URL r = targetURL"
    using r by (rule testCORS_URL)
  have parse: "\<forall>e. url_Parse lib targetURL = Inl e \<longrightarrow>
        (\<exists>err. build_request lib targetURL config = Inl err)"
    using NewRequest_parse_fail [of lib targetURL _ "Method config"]
    by (auto simp: build_request_cases)
  have meth: "\<not> validMethod lib (if Method config = [] then ''GET'' else Method config) \<longrightarrow>
        build_request lib targetURL config =
          Inl (''net/http: invalid method '' @
               fmt_q lib (if Method config = [] then ''GET'' else Method config))"
    using build_request_bad_method by blast
  have badurl: "validMethod lib (if Method config = [] then ''GET'' else Method config) \<longrightarrow>
        (\<forall>e. url_Parse lib targetURL = Inl e \<longrightarrow> build_request lib targetURL config = Inl e)"
    using build_request_bad_url by blast
  have create: "\<forall>err. build_request lib targetURL config = Inl err \<longrightarrow>
        fst (testCORS_io lib nt targetURL config) = [] \<and>
        Error r = ''Error creating request: '' @ err \<and> Error r \<noteq> [] \<and>
        StatusCode r = 0 \<and> Headers r = Some Map.empty \<and> CORSHeaders r = Some [] \<and>
        \<not> HasCORS r"
    using r by (auto simp: testCORS_cases sent_cases)
  have look: "distinct (map fst (resp_Header resp)) \<longrightarrow>
              (\<forall>(key, vals) \<in> set (resp_Header resp).
                 store_all (resp_Header resp) Map.empty key = Some (Join vals '', ''))" for resp
    by (auto simp: store_all_in)
  have sent: "\<forall>req. build_request lib targetURL config = Inr req \<longrightarrow>
        fst (testCORS_io lib nt targetURL config) = [req] \<and>
        (\<forall>err. client_Do nt (Timeout config) req = Inl err \<longrightarrow>
           Error r = ''Request failed: '' @ err \<and> Error r \<noteq> [] \<and>
           StatusCode r = 0 \<and> Headers r = Some Map.empty \<and> CORSHeaders r = Some [] \<and>
           \<not> HasCORS r) \<and>
        (\<forall>resp. client_Do nt (Timeout config) req = Inr resp \<longrightarrow>
           Error r = [] \<and> StatusCode r = resp_StatusCode resp \<and>
           Headers r = Some (store_all (resp_Header resp) Map.empty) \<and>
           dom (store_all (resp_Header resp) Map.empty) = fst ` set (resp_Header resp) \<and>
           (distinct (map fst (resp_Header resp)) \<longrightarrow>
              (\<forall>(key, vals) \<in> set (resp_Header resp).
                 store_all (resp_Header resp) Map.empty key = Some (Join vals '', ''))))"
  proof (intro allI impI conjI)
    fix req
    assume b: "build_request lib targetURL config = Inr req"
    show "fst (testCORS_io lib nt targetURL config) = [req]"
      using b by (simp add: sent_cases)
    fix err
    assume d: "client_Do nt (Timeout config) req = Inl err"
    show "Error r = ''Request failed: '' @ err" "Error r \<noteq> []" "StatusCode r = 0"
      "Headers r = Some Map.empty" "CORSHeaders r = Some []" "\<not> HasCORS r"
      using r b d by (auto simp: testCORS_cases)
  next
    fix req resp
    assume b: "build_request lib targetURL config = Inr req"
      and d: "client_Do nt (Timeout config) req = Inr resp"
    show "Error r = []" "StatusCode r = resp_StatusCode resp"
      "Headers r = Some (store_all (resp_Header resp) Map.empty)"
      using r b d by (auto simp: testCORS_cases)
    show "dom (store_all (resp_Header resp) Map.empty) = fst ` set (resp_Header resp)"
      by (simp add: store_all_dom)
    assume "distinct (map fst (resp_Header resp))"
    then show "\<forall>(key, vals) \<in> set (resp_Header resp).
                 store_all (resp_Header resp) Map.empty key = Some (Join vals '', '')"
      using look by blast
  qed
  show ?thesis
    by (rule exI [of _ r]) (intro conjI r url parse meth badurl create sent)
qed

text \<open>
  The theorem at an unparsable target, at an invalid method, at a host that times out and
  at a host that answers 404.
\<close>
theorem testCORS_failure_paths_witness:
  "fst (testCORS_io demo_lib demo_net ''http://c d/'' (demo_config 2)) = [] \<and>
   (\<exists>r. testCORS demo_lib demo_net ''http://c d/'' (demo_config 2) = Inr r \<and>
      Error r = ''Error creating request: parse: invalid character in URL'' \<and>
      StatusCode r = 0 \<and> Headers r = Some Map.empty) \<and>
   \<not> validMethod demo_lib ''G T'' \<and>
   fst (testCORS_io demo_lib demo_net ''http://a.test/'' ((demo_config 2)\<lparr>Method := ''G T''\<rparr>)) = [] \<and>
   (\<exists>r. testCORS demo_lib demo_net ''http://a.test/'' ((demo_config 2)\<lparr>Method := ''G T''\<rparr>) = Inr r \<and>
      Error r = ''Error creating request: net/http: invalid method G T'' \<and>
      StatusCode r = 0 \<and> Headers r = Some Map.empty) \<and>
   (\<exists>r. testCORS demo_lib demo_net ''http://b.test/'' (demo_config 2) = Inr r \<and>
      Error r = ''Request failed: context deadline exceeded'' \<and>
      StatusCode r = 0 \<and> Headers r = Some Map.empty) \<and>
   (\<exists>r. testCORS demo_lib demo_net ''http://c.test/'' (demo_config 2) = Inr r \<and>
      Error r = [] \<and> StatusCode r = 404 \<and>
      Headers r = Some [''Content-Type'' \<mapsto> ''text/html''])"
  using testCORS_failure_paths [of demo_lib demo_net "''http://c d/''" "demo_config 2"]
    testCORS_failure_paths [of demo_lib demo_net "''http://a.test/''"
      "(demo_config 2)\<lparr>Method := ''G T''\<rparr>"]
    testCORS_failure_paths [of demo_lib demo_net "''http://b.test/''" "demo_config 2"]
    testCORS_failure_paths [of demo_lib demo_net "''http://c.test/''" "demo_config 2"]
  by (simp add: demo_testCORS_bad demo_testCORS_bad_method demo_testCORS_b demo_testCORS_c
        sent_cases demo_build_bad demo_build_bad_method)
     (simp add: demo_lib_def)

section \<open>Properties of printSummary and of the target list\<close>

lemma count_loop_eq:
  "count_loop rs (a, b) =
     (a + length (filter (\<lambda>r. Error r = []) rs), b + length (filter HasCORS rs))"
  by (induction rs arbitrary: a b) auto

text \<open>
  Claim C7. For every result list the summary reports, as total, the number of results;
  as successful, the number of results with an empty error field; as with-CORS, the number
  of results with the has-CORS flag; and as rate the line \<open>0%\<close>, without a division, when
  the list is empty, and the quotient of successful and total otherwise. Adding a failed
  result raises the total by one and leaves the successful count as it was.
\<close>
theorem printSummary_counts:
  "printSummary rs =
     [Banner, TotalLine (length rs),
      SuccessfulLine (length (filter (\<lambda>r. Error r = []) rs)),
      WithCORSLine (length (filter HasCORS rs)),
      (if rs = [] then RateZero
       else RateLine (length (filter (\<lambda>r. Error r = []) rs)) (length rs))] \<and>
   (\<forall>r. Error r \<noteq> [] \<longrightarrow>
      printSummary (rs @ [r]) ! 1 = TotalLine (length rs + 1) \<and>
      printSummary (rs @ [r]) ! 2 = SuccessfulLine (length (filter (\<lambda>r. Error r = []) rs)))"
  by (simp add: printSummary_def count_loop_eq Let_def)

text \<open>The theorem at a single result, at a success followed by a failure, and at the empty list.\<close>
theorem printSummary_counts_witness:
  "printSummary
     [zero_CORSTestResult\<lparr>HasCORS := True\<rparr>] =
     [Banner, TotalLine 1, SuccessfulLine 1, WithCORSLine 1, RateLine 1 1] \<and>
   printSummary
     [zero_CORSTestResult\<lparr>HasCORS := True\<rparr>,
      zero_CORSTestResult\<lparr>Error := ''Request failed: context deadline exceeded''\<rparr>] =
     [Banner, TotalLine 2, SuccessfulLine 1, WithCORSLine 1, RateLine 1 2] \<and>
   printSummary [] = [Banner, TotalLine 0, SuccessfulLine 0, WithCORSLine 0, RateZero]"
  using printSummary_counts [of "[zero_CORSTestResult\<lparr>HasCORS := True\<rparr>]"]
    printSummary_counts [of "[zero_CORSTestResult\<lparr>HasCORS := True\<rparr>,
      zero_CORSTestResult\<lparr>Error := ''Request failed: context deadline exceeded''\<rparr>]"]
    printSummary_counts [of "[]"]
  by (simp add: zero_CORSTestResult_def)

lemma collect_urls_eq:
  "collect_urls lib lines acc =
     acc @ filter (\<lambda>u. u \<noteq> [] \<and> isValidURL lib u) (map (strings_TrimSpace lib) lines)"
  by (induction lines arbitrary: acc) (auto simp: Let_def)

lemma isValidURL_iff:
  "isValidURL lib u \<longleftrightarrow> (\<exists>p. url_Parse lib u = Inr p \<and> Scheme p \<noteq> [] \<and> Host p \<noteq> [])"
  by (auto simp: isValidURL_def split: sum.splits)

lemma step_targets:
  "step lib nts config a s = Some s' \<Longrightarrow>
   map fst (workers s') @ pending s' = map fst (workers s) @ pending s"
  by (cases a)
     (auto simp: step_def map_update list_update_same_conv
           split: if_splits list.splits prod.splits phase.splits sum.splits
           elim!: step_worker.elims)

lemma reachable_targets:
  "reachable lib nts config s0 s \<Longrightarrow>
   map fst (workers s) @ pending s = map fst (workers s0) @ pending s0"
  by (induction rule: reachable.induct) (auto dest: step_targets)

lemma bulk_setup_Inr:
  "bulk_setup lib w filename config = Inr s0 \<longleftrightarrow>
     (\<exists>file. os_Open w filename = Inr file \<and> scan_err file = None \<and>
        collect_urls lib (scanned file) [] \<noteq> [] \<and> 0 \<le> Concurrency config \<and>
        s0 = init_state (collect_urls lib (scanned file) []))"
  by (auto simp: bulk_setup_def Let_def split: sum.splits option.splits)

section \<open>Properties of the goroutines\<close>

lemma length_filter_update:
  "i < length ws \<Longrightarrow>
   length (filter P (ws[i := x])) =
     length (filter P ws) + (if P x then 1 else 0) - (if P (ws ! i) then 1 else 0)"
proof -
  assume i: "i < length ws"
  have 1: "ws[i := x] = take i ws @ x # drop (Suc i) ws"
    using i by (rule upd_conv_take_nth_drop)
  have 2: "ws = take i ws @ ws ! i # drop (Suc i) ws"
    using i by (rule id_take_nth_drop)
  have "length (filter P ws) =
      length (filter P (take i ws)) + (if P (ws ! i) then 1 else 0) + length (filter P (drop (Suc i) ws))"
    by (subst 2) simp
  then show ?thesis
    by (simp add: 1)
qed

lemma cnt_update [simp]:
  "i < length ws \<Longrightarrow>
   cnt P (ws[i := (u, ph)]) =
     cnt P ws + (if P ph then 1 else 0) - (if P (snd (ws ! i)) then 1 else 0)"
  by (simp add: cnt_def length_filter_update)

lemma cnt_pos:
  "i < length ws \<Longrightarrow> P (snd (ws ! i)) \<Longrightarrow> 0 < cnt P ws"
  unfolding cnt_def by (metis comp_apply filter_empty_conv length_greater_0_conv nth_mem)

lemma cnt_append [simp]: "cnt P (ws @ vs) = cnt P ws + cnt P vs"
  by (simp add: cnt_def)

lemma cnt_single [simp]: "cnt P [(u, ph)] = (if P ph then 1 else 0)"
  by (simp add: cnt_def)

lemma cnt_Nil [simp]: "cnt P [] = 0"
  by (simp add: cnt_def)

lemma step_GoE:
  assumes "step lib nts config (Go i) s = Some s'"
  obtains u ph where "i < length (workers s)" "workers s ! i = (u, ph)"
    "step_worker lib (nts i) config i u ph s = Some s'" "\<not> returned s" "aborted s = None"
  using assms by (auto simp: step_def split: if_splits prod.splits)

lemma step_sem:
  assumes "step lib nts config a s = Some s'" "sem s = cnt holding (workers s)"
  shows "sem s' = cnt holding (workers s')"
proof (cases a)
  case Spawn
  with assms show ?thesis
    by (auto simp: step_def split: if_splits list.splits)
next
  case (Go i)
  with assms(1) obtain u ph where *: "i < length (workers s)" "workers s ! i = (u, ph)"
    "step_worker lib (nts i) config i u ph s = Some s'"
    by (auto elim: step_GoE)
  then show ?thesis
    using assms(2) cnt_pos [of i "workers s" holding]
    by (cases ph) (auto split: if_splits sum.splits)
next
  case Wait
  with assms show ?thesis
    by (auto simp: step_def split: if_splits)
qed

lemma step_SpawnE:
  assumes "step lib nts config Spawn s = Some s'"
  obtains u rest where "pending s = u # rest"
    "s' = s\<lparr>pending := rest, wg := wg s + 1, workers := workers s @ [(u, Spawned)]\<rparr>"
    "\<not> returned s" "aborted s = None"
  using assms by (auto simp: step_def split: if_splits list.splits)

lemma step_WaitE:
  assumes "step lib nts config Wait s = Some s'"
  obtains "pending s = []" "wg s = 0" "s' = s\<lparr>returned := True\<rparr>"
    "\<not> returned s" "aborted s = None"
  using assms by (auto simp: step_def split: if_splits)

lemma step_cap:
  assumes "step lib nts config a s = Some s'" "int (sem s) \<le> Concurrency config"
  shows "int (sem s') \<le> Concurrency config"
proof (cases a)
  case Spawn
  with assms show ?thesis by (auto elim!: step_SpawnE)
next
  case (Go i)
  with assms(1) obtain u ph where "step_worker lib (nts i) config i u ph s = Some s'"
    by (auto elim: step_GoE)
  then show ?thesis
    using assms(2) by (cases ph) (auto split: if_splits sum.splits)
next
  case Wait
  with assms show ?thesis by (auto elim!: step_WaitE)
qed

lemma step_mu:
  assumes "step lib nts config a s = Some s'"
    "cnt locking (workers s) = (if mu s then 1 else 0)"
  shows "cnt locking (workers s') = (if mu s' then 1 else 0)"
proof (cases a)
  case Spawn
  with assms show ?thesis by (auto elim!: step_SpawnE)
next
  case (Go i)
  with assms(1) obtain u ph where *: "i < length (workers s)" "workers s ! i = (u, ph)"
    "step_worker lib (nts i) config i u ph s = Some s'"
    by (auto elim: step_GoE)
  then show ?thesis
    using assms(2) cnt_pos [of i "workers s" locking]
    by (cases ph) (auto split: if_splits sum.splits)
next
  case Wait
  with assms show ?thesis by (auto elim!: step_WaitE)
qed

lemma step_wg:
  assumes "step lib nts config a s = Some s'" "wg s = cnt live (workers s)"
  shows "wg s' = cnt live (workers s')"
proof (cases a)
  case Spawn
  with assms show ?thesis by (auto elim!: step_SpawnE)
next
  case (Go i)
  with assms(1) obtain u ph where *: "i < length (workers s)" "workers s ! i = (u, ph)"
    "step_worker lib (nts i) config i u ph s = Some s'"
    by (auto elim: step_GoE)
  then show ?thesis
    using assms(2) cnt_pos [of i "workers s" live]
    by (cases ph) (auto split: if_splits sum.splits)
next
  case Wait
  with assms show ?thesis by (auto elim!: step_WaitE)
qed

lemma concat_update_same:
  "i < length ws \<Longrightarrow> f x = f (ws ! i) \<Longrightarrow> concat (map f (ws[i := x])) = concat (map f ws)"
proof -
  assume "i < length ws" "f x = f (ws ! i)"
  then have "map f (ws[i := x]) = map f ws"
    by (simp add: list_eq_iff_nth_eq nth_list_update)
  then show ?thesis by simp
qed

lemma mset_concat_update_Nil:
  assumes "i < length ws" "f (ws ! i) = []"
  shows "mset (concat (map f (ws[i := x]))) = mset (concat (map f ws)) + mset (f x)"
proof -
  have 1: "ws[i := x] = take i ws @ x # drop (Suc i) ws"
    using assms(1) by (rule upd_conv_take_nth_drop)
  have 2: "ws = take i ws @ ws ! i # drop (Suc i) ws"
    using assms(1) by (rule id_take_nth_drop)
  have "mset (concat (map f ws)) =
      mset (concat (map f (take i ws))) + mset (concat (map f (drop (Suc i) ws)))"
    by (subst 2) (simp add: assms(2))
  then show ?thesis
    by (simp add: 1)
qed

lemma step_results:
  assumes "step lib nts config a s = Some s'"
    "mset (results s) = mset (concat (map (appended_of \<circ> snd) (workers s)))"
  shows "mset (results s') = mset (concat (map (appended_of \<circ> snd) (workers s')))"
proof (cases a)
  case Spawn
  with assms show ?thesis by (auto elim!: step_SpawnE)
next
  case (Go i)
  with assms(1) obtain u ph where *: "i < length (workers s)" "workers s ! i = (u, ph)"
    "step_worker lib (nts i) config i u ph s = Some s'"
    by (auto elim: step_GoE)
  then show ?thesis
    using assms(2)
    by (cases ph)
       (auto simp: concat_update_same mset_concat_update_Nil split: if_splits sum.splits)
next
  case Wait
  with assms show ?thesis by (auto elim!: step_WaitE)
qed

lemma carried_update:
  assumes "carried lib nts config ws" "i < length ws"
    "\<And>r. result_of ph = Some r \<Longrightarrow> testCORS lib (nts i) u config = Inr r"
  shows "carried lib nts config (ws[i := (u, ph)])"
  using assms by (auto simp: carried_def nth_list_update)

lemma carried_append:
  assumes "carried lib nts config ws"
  shows "carried lib nts config (ws @ [(u, Spawned)])"
  using assms by (auto simp: carried_def nth_append)

lemma carried_nth:
  "carried lib nts config ws \<Longrightarrow> i < length ws \<Longrightarrow> ws ! i = (u, ph) \<Longrightarrow>
   result_of ph = Some r \<Longrightarrow> testCORS lib (nts i) u config = Inr r"
  by (auto simp: carried_def)

lemma step_carried:
  assumes "step lib nts config a s = Some s'" "carried lib nts config (workers s)"
  shows "carried lib nts config (workers s')"
proof (cases a)
  case Spawn
  with assms show ?thesis by (auto elim!: step_SpawnE intro: carried_append)
next
  case (Go i)
  with assms(1) obtain u ph where *: "i < length (workers s)" "workers s ! i = (u, ph)"
    "step_worker lib (nts i) config i u ph s = Some s'"
    by (auto elim: step_GoE)
  then show ?thesis
    using assms(2) carried_nth [OF assms(2) *(1,2)]
    by (cases ph) (auto split: if_splits sum.splits intro!: carried_update)
next
  case Wait
  with assms show ?thesis by (auto elim!: step_WaitE)
qed

lemma step_aborted:
  assumes "step lib nts config a s = Some s'" "wg s = cnt live (workers s)"
  shows "aborted s' = None"
proof (cases a)
  case Spawn
  with assms show ?thesis by (auto elim!: step_SpawnE)
next
  case (Go i)
  with assms(1) obtain u ph where *: "i < length (workers s)" "workers s ! i = (u, ph)"
    "step_worker lib (nts i) config i u ph s = Some s'" "aborted s = None"
    by (auto elim: step_GoE)
  then show ?thesis
    using assms(2) cnt_pos [of i "workers s" live] testCORS_returns [of lib "nts i" u config]
    by (cases ph) (auto split: if_splits sum.splits)
next
  case Wait
  with assms show ?thesis by (auto elim!: step_WaitE)
qed

lemma step_returned:
  assumes "step lib nts config a s = Some s'"
  shows "returned s' \<longrightarrow> pending s' = [] \<and> wg s' = 0"
proof (cases a)
  case Spawn
  with assms show ?thesis by (auto elim!: step_SpawnE)
next
  case (Go i)
  with assms(1) obtain u ph where *: "i < length (workers s)" "workers s ! i = (u, ph)"
    "step_worker lib (nts i) config i u ph s = Some s'" "\<not> returned s"
    by (auto elim: step_GoE)
  then show ?thesis
    by (cases ph) (auto split: if_splits sum.splits)
next
  case Wait
  with assms show ?thesis by (auto elim!: step_WaitE)
qed

lemma bulk_inv_init:
  "0 \<le> Concurrency config \<Longrightarrow> bulk_inv lib nts config (init_state urls)"
  by (simp add: bulk_inv_def init_state_def carried_def)

lemma step_inv:
  assumes "bulk_inv lib nts config s" "step lib nts config a s = Some s'"
  shows "bulk_inv lib nts config s'"
  unfolding bulk_inv_def
proof (intro conjI)
  show "sem s' = cnt holding (workers s')"
    using assms by (auto simp: bulk_inv_def intro: step_sem)
  show "int (sem s') \<le> Concurrency config"
    using assms by (auto simp: bulk_inv_def intro: step_cap)
  show "cnt locking (workers s') = (if mu s' then 1 else 0)"
    using assms(1) by (intro step_mu [OF assms(2)]) (simp add: bulk_inv_def)
  show "wg s' = cnt live (workers s')"
    using assms by (auto simp: bulk_inv_def intro: step_wg)
  show "mset (results s') = mset (concat (map (appended_of \<circ> snd) (workers s')))"
    using assms(1) by (intro step_results [OF assms(2)]) (simp add: bulk_inv_def)
  show "carried lib nts config (workers s')"
    using assms by (auto simp: bulk_inv_def intro: step_carried)
  show "aborted s' = None"
    using assms by (auto simp: bulk_inv_def intro: step_aborted)
  show "returned s' \<longrightarrow> pending s' = [] \<and> wg s' = 0"
    using assms(2) by (rule step_returned)
qed

lemma reachable_inv:
  "reachable lib nts config s0 s \<Longrightarrow> bulk_inv lib nts config s0 \<Longrightarrow> bulk_inv lib nts config s"
  by (induction rule: reachable.induct) (auto intro: step_inv)

lemma reachable_trans:
  "reachable lib nts config s1 s2 \<Longrightarrow> reachable lib nts config s0 s1 \<Longrightarrow>
   reachable lib nts config s0 s2"
  by (induction rule: reachable.induct) (auto intro: reachable.intros)

lemma exec_reachable: "reachable lib nts config s (exec lib nts config sched s)"
proof (induction sched arbitrary: s)
  case Nil
  show ?case by (simp add: reachable_init)
next
  case (Cons a sched)
  show ?case
  proof (cases "step lib nts config a s")
    case None
    then show ?thesis using Cons [of s] by simp
  next
    case (Some s1)
    have "reachable lib nts config s s1"
      using Some by (blast intro: reachable.intros)
    then show ?thesis
      using Some Cons [of s1] by (auto intro: reachable_trans)
  qed
qed

lemma rk_split:
  assumes "i < length ws"
  shows "rk ws = rk (take i ws) + rank (snd (ws ! i)) + rk (drop (Suc i) ws)"
proof -
  have "ws = take i ws @ ws ! i # drop (Suc i) ws"
    using assms by (rule id_take_nth_drop)
  then have "rk ws = rk (take i ws @ ws ! i # drop (Suc i) ws)"
    by simp
  then show ?thesis
    by (simp add: rk_def)
qed

lemma rk_ge: "i < length ws \<Longrightarrow> rank (snd (ws ! i)) \<le> rk ws"
  by (simp add: rk_split [of i ws])

lemma rk_update':
  assumes "i < length ws"
  shows "rk (ws[i := (u, ph)]) = rk ws + rank ph - rank (snd (ws ! i))"
proof -
  have "ws[i := (u, ph)] = take i ws @ (u, ph) # drop (Suc i) ws"
    using assms by (rule upd_conv_take_nth_drop)
  then have "rk (ws[i := (u, ph)]) = rk (take i ws) + rank ph + rk (drop (Suc i) ws)"
    by (simp add: rk_def)
  then show ?thesis
    using rk_split [OF assms] by simp
qed

lemma rk_append [simp]: "rk (ws @ [(u, ph)]) = rk ws + rank ph"
  by (simp add: rk_def)

lemma remaining_alt:
  "remaining s = (if returned s then 0 else 1) + 8 * length (pending s) + rk (workers s)"
  by (simp add: remaining_def rk_def)

lemma step_remaining:
  assumes "bulk_inv lib nts config s" "step lib nts config a s = Some s'"
  shows "Suc (remaining s') = remaining s"
proof (cases a)
  case Spawn
  with assms(2) show ?thesis by (auto simp: remaining_alt elim!: step_SpawnE)
next
  case (Go i)
  with assms(2) obtain u ph where *: "i < length (workers s)" "workers s ! i = (u, ph)"
    "step_worker lib (nts i) config i u ph s = Some s'" "\<not> returned s"
    by (auto elim: step_GoE)
  have wg: "0 < wg s" if "live ph"
    using assms(1) * that cnt_pos [of i "workers s" live] by (simp add: bulk_inv_def)
  show ?thesis
    using * wg rk_ge [OF *(1)] testCORS_returns [of lib "nts i" u config]
    by (cases ph) (auto simp: remaining_alt rk_update' split: if_splits sum.splits)
next
  case Wait
  with assms(2) show ?thesis by (auto simp: remaining_alt elim!: step_WaitE)
qed

lemma cnt_zero: "(\<forall>j < length ws. \<not> P (snd (ws ! j))) \<Longrightarrow> cnt P ws = 0"
  by (force simp: cnt_def filter_empty_conv in_set_conv_nth)

lemma cnt_posD: "0 < cnt P ws \<Longrightarrow> \<exists>j < length ws. P (snd (ws ! j))"
  using cnt_zero [of ws P] by fastforce

lemma cnt_zeroD: "cnt P ws = 0 \<Longrightarrow> j < length ws \<Longrightarrow> \<not> P (snd (ws ! j))"
  using cnt_pos [of j ws P] by auto

lemma Go_locking:
  assumes "j < length (workers s)" "locking (snd (workers s ! j))" "\<not> returned s" "aborted s = None"
  shows "\<exists>s'. step lib nts config (Go j) s = Some s'"
  using assms by (cases "workers s ! j"; cases "snd (workers s ! j)") (auto simp: step_def)

lemma Go_holding:
  assumes "j < length (workers s)" "holding (snd (workers s ! j))" "\<not> returned s" "aborted s = None"
    "\<not> mu s" "0 < sem s"
  shows "\<exists>s'. step lib nts config (Go j) s = Some s'"
  using assms
  by (cases "workers s ! j"; cases "snd (workers s ! j)") (auto simp: step_def split: sum.splits)

lemma Go_idle:
  assumes "j < length (workers s)" "live (snd (workers s ! j))" "\<not> holding (snd (workers s ! j))"
    "\<not> returned s" "aborted s = None" "int (sem s) < Concurrency config"
  shows "\<exists>s'. step lib nts config (Go j) s = Some s'"
  using assms
  by (cases "workers s ! j"; cases "snd (workers s ! j)") (auto simp: step_def)

lemma no_deadlock:
  assumes inv: "bulk_inv lib nts config s" and cap: "1 \<le> Concurrency config"
    and nr: "\<not> returned s"
  shows "\<exists>a s'. step lib nts config a s = Some s'"
proof -
  have ab: "aborted s = None" using inv by (simp add: bulk_inv_def)
  consider (spawn) "pending s \<noteq> []" | (wait) "pending s = []" "wg s = 0"
    | (work) "pending s = []" "wg s \<noteq> 0"
    by blast
  then show ?thesis
  proof cases
    case spawn
    then have "\<exists>s'. step lib nts config Spawn s = Some s'"
      using nr ab by (cases "pending s") (auto simp: step_def)
    then show ?thesis by blast
  next
    case wait
    then have "\<exists>s'. step lib nts config Wait s = Some s'"
      using nr ab by (auto simp: step_def)
    then show ?thesis by blast
  next
    case work
    then have "0 < cnt live (workers s)"
      using inv by (simp add: bulk_inv_def)
    then obtain i where i: "i < length (workers s)" "live (snd (workers s ! i))"
      using cnt_posD by blast
    show ?thesis
    proof (cases "\<exists>j < length (workers s). locking (snd (workers s ! j))")
      case True
      then show ?thesis using Go_locking nr ab by blast
    next
      case False
      then have "cnt locking (workers s) = 0" by (simp add: cnt_zero)
      then have mu: "\<not> mu s"
        using inv by (auto simp: bulk_inv_def split: if_splits)
      show ?thesis
      proof (cases "\<exists>j < length (workers s). holding (snd (workers s ! j))")
        case True
        then obtain j where j: "j < length (workers s)" "holding (snd (workers s ! j))"
          by blast
        then have "0 < sem s"
          using inv cnt_pos [of j "workers s" holding] by (simp add: bulk_inv_def)
        then show ?thesis using Go_holding [OF j nr ab mu] by blast
      next
        case False
        then have "cnt holding (workers s) = 0" by (simp add: cnt_zero)
        then have "sem s = 0" using inv by (simp add: bulk_inv_def)
        then have "int (sem s) < Concurrency config" using cap by simp
        moreover have "\<not> holding (snd (workers s ! i))" using False i by blast
        ultimately show ?thesis using Go_idle [OF i(1,2) _ nr ab] by blast
      qed
    qed
  qed
qed

lemma can_return:
  assumes "bulk_inv lib nts config s" "1 \<le> Concurrency config"
  shows "\<exists>sched. returned (exec lib nts config sched s)"
  using assms
proof (induction "remaining s" arbitrary: s rule: less_induct)
  case less
  show ?case
  proof (cases "returned s")
    case True
    then have "returned (exec lib nts config [] s)" by simp
    then show ?thesis by blast
  next
    case False
    then obtain a s' where st: "step lib nts config a s = Some s'"
      using no_deadlock less.prems by blast
    have "remaining s' < remaining s"
      using step_remaining [OF less.prems(1) st] by simp
    moreover have "bulk_inv lib nts config s'"
      using less.prems(1) st by (rule step_inv)
    ultimately obtain sched where "returned (exec lib nts config sched s')"
      using less.hyps less.prems(2) by blast
    then have "returned (exec lib nts config (a # sched) s)"
      using st by simp
    then show ?thesis by blast
  qed
qed

lemma returned_all_finished:
  assumes "bulk_inv lib nts config s" "returned s" "j < length (workers s)"
  shows "\<exists>r. snd (workers s ! j) = Finished r"
proof -
  have "cnt live (workers s) = 0"
    using assms(1,2) by (simp add: bulk_inv_def)
  then have "\<not> live (snd (workers s ! j))"
    using assms(3) by (rule cnt_zeroD)
  then show ?thesis
    by (cases "snd (workers s ! j)") auto
qed

lemma finished_concat:
  assumes "\<forall>j < length ws. \<exists>r. snd (ws ! j) = Finished r"
  shows "concat (map (appended_of \<circ> snd) ws) = map (\<lambda>w. the (result_of (snd w))) ws"
  using assms
proof (induction ws)
  case Nil
  then show ?case by simp
next
  case (Cons x ws)
  have "\<exists>r. snd x = Finished r"
    using Cons.prems by (auto dest: spec [of _ 0])
  moreover have "\<forall>j < length ws. \<exists>r. snd (ws ! j) = Finished r"
    using Cons.prems by (auto dest: spec [of _ "Suc _"])
  ultimately show ?case
    using Cons.IH by auto
qed

lemma finished_results:
  assumes fin: "\<forall>j < length ws. \<exists>r. snd (ws ! j) = Finished r"
    and car: "carried lib nts config ws"
  shows "map Inr (concat (map (appended_of \<circ> snd) ws)) =
           map (\<lambda>(i, u). testCORS lib (nts i) u config) (enumerate 0 (map fst ws))"
proof -
  have "testCORS lib (nts j) (fst (ws ! j)) config = Inr (the (result_of (snd (ws ! j))))"
    if j: "j < length ws" for j
  proof -
    obtain r where "snd (ws ! j) = Finished r" using fin j by blast
    then show ?thesis
      using car j by (auto simp: carried_def)
  qed
  then show ?thesis
    by (simp add: finished_concat [OF fin] list_eq_iff_nth_eq nth_enumerate_eq)
qed

lemma returned_results:
  assumes inv: "bulk_inv lib nts config s" and ret: "returned s"
  shows "mset (map Inr (results s)) =
           mset (map (\<lambda>(i, u). testCORS lib (nts i) u config)
                  (enumerate 0 (map fst (workers s))))"
proof -
  have fin: "\<forall>j < length (workers s). \<exists>r. snd (workers s ! j) = Finished r"
    using returned_all_finished [OF inv ret] by blast
  have car: "carried lib nts config (workers s)"
    using inv by (simp add: bulk_inv_def)
  have eq: "map Inr (concat (map (appended_of \<circ> snd) (workers s))) =
           map (\<lambda>(i, u). testCORS lib (nts i) u config) (enumerate 0 (map fst (workers s)))"
    using fin car by (rule finished_results)
  have "mset (map Inr (results s)) = image_mset Inr (mset (results s))"
    by simp
  also have "\<dots> = image_mset Inr (mset (concat (map (appended_of \<circ> snd) (workers s))))"
    using inv by (simp add: bulk_inv_def)
  also have "\<dots> = mset (map Inr (concat (map (appended_of \<circ> snd) (workers s))))"
    by simp
  also have "\<dots> = mset (map (\<lambda>(i, u). testCORS lib (nts i) u config)
                  (enumerate 0 (map fst (workers s))))"
    by (simp only: eq)
  finally show ?thesis .
qed

lemma results_URLs:
  assumes "mset (map Inr rs) = mset (map (\<lambda>(i, u). testCORS lib (nts i) u config) (enumerate 0 urls))"
  shows "mset (map URL rs) = mset urls \<and> length rs = length urls"
proof -
  define f :: "abort + CORSTestResult \<Rightarrow> string"
    where "f = (\<lambda>x. case x of Inl a \<Rightarrow> [] | Inr r \<Rightarrow> URL r)"
  define g where "g = (\<lambda>(i, u). testCORS lib (nts i) u config)"
  have 1: "map f (map g (enumerate 0 urls)) = urls"
  proof (rule nth_equalityI)
    show "length (map f (map g (enumerate 0 urls))) = length urls" by simp
  next
    fix j
    assume "j < length (map f (map g (enumerate 0 urls)))"
    then have j: "j < length urls" by simp
    obtain r where r: "testCORS lib (nts j) (urls ! j) config = Inr r"
      using testCORS_returns by blast
    then have "URL r = urls ! j" by (rule testCORS_URL)
    then show "map f (map g (enumerate 0 urls)) ! j = urls ! j"
      using j r by (simp add: nth_enumerate_eq f_def g_def)
  qed
  have 2: "map f (map Inr rs) = map URL rs"
    by (simp add: f_def)
  have 3: "mset (map Inr rs) = mset (map g (enumerate 0 urls))"
    using assms by (simp only: g_def)
  have "mset (map URL rs) = mset (map f (map Inr rs))"
    by (simp only: 2)
  also have "\<dots> = image_mset f (mset (map Inr rs))"
    by (rule mset_map)
  also have "\<dots> = image_mset f (mset (map g (enumerate 0 urls)))"
    by (simp only: 3)
  also have "\<dots> = mset (map f (map g (enumerate 0 urls)))"
    by (rule mset_map [symmetric])
  also have "\<dots> = mset urls"
    by (simp only: 1)
  finally have "mset (map URL rs) = mset urls" .
  moreover have "length rs = length urls"
    using arg_cong [OF 3, of size] by simp
  ultimately show ?thesis by simp
qed

lemma demo_open_urls:
  "os_Open demo_world ''urls.txt'' =
     Inr \<lparr>scanned = [''http://a.test/'', [], ''  http://b.test/  '', ''a.test'', ''http://c d/''],
          scan_err = None\<rparr>"
  by (simp add: demo_world_def)

lemma demo_open_blank:
  "os_Open demo_world ''blank.txt'' = Inr \<lparr>scanned = [[], ''   '', ''a.test''], scan_err = None\<rparr>"
  by (simp add: demo_world_def)

lemma demo_open_empty:
  "os_Open demo_world ''empty.txt'' = Inr \<lparr>scanned = [], scan_err = None\<rparr>"
  by (simp add: demo_world_def)

lemma demo_urls:
  "collect_urls demo_lib [''http://a.test/'', [], ''  http://b.test/  '', ''a.test'', ''http://c d/''] [] =
     [''http://a.test/'', ''http://b.test/'']"
  by (simp add: isValidURL_def demo_lib_def demo_TrimSpace_def is_space_def demo_Parse_def)

lemma demo_blank:
  "collect_urls demo_lib [[], ''   '', ''a.test''] [] = []"
  by (simp add: isValidURL_def demo_lib_def demo_TrimSpace_def is_space_def demo_Parse_def)

lemma demo_setup:
  "0 \<le> c \<Longrightarrow> bulk_setup demo_lib demo_world ''urls.txt'' (demo_config c) =
     Inr (init_state [''http://a.test/'', ''http://b.test/''])"
  by (simp add: bulk_setup_def demo_open_urls demo_urls demo_config_def del: collect_urls.simps)

lemma demo_nets: "nets demo_world i = demo_net"
  by (simp add: demo_world_def)

lemma demo_schedule_eq:
  "demo_schedule =
     [Spawn, Spawn, Go 0, Go 0, Go 0, Go 0, Go 0, Go 0, Go 0,
      Go 1, Go 1, Go 1, Go 1, Go 1, Go 1, Go 1, Wait]"
  by (simp add: demo_schedule_def eval_nat_numeral)

lemma demo_testCORS_a': "testCORS demo_lib demo_net ''http://a.test/'' (demo_config c) = Inr demo_result_a"
  by (simp add: demo_testCORS_a demo_result_a_def)

lemma demo_testCORS_b': "testCORS demo_lib demo_net ''http://b.test/'' (demo_config c) = Inr demo_result_b"
  by (simp add: demo_testCORS_b demo_result_b_def)

lemma demo_Concurrency: "Concurrency (demo_config c) = c"
  by (simp add: demo_config_def)

lemma demo_run:
  "1 \<le> c \<Longrightarrow>
   exec demo_lib (nets demo_world) (demo_config c) demo_schedule
     (init_state [''http://a.test/'', ''http://b.test/'']) =
     \<lparr>pending = [],
      workers = [(''http://a.test/'', Finished demo_result_a),
                 (''http://b.test/'', Finished demo_result_b)],
      sem = 0, mu = False, wg = 0, results = [demo_result_a, demo_result_b],
      returned = True, aborted = None\<rparr>"
  by (simp add: demo_schedule_eq init_state_def step_def demo_nets demo_testCORS_a'
        demo_testCORS_b' demo_Concurrency)

lemma demo_run_0:
  "exec demo_lib (nets demo_world) (demo_config 0) demo_schedule
     (init_state [''http://a.test/'', ''http://b.test/'']) =
     \<lparr>pending = [],
      workers = [(''http://a.test/'', Spawned), (''http://b.test/'', Spawned)],
      sem = 0, mu = False, wg = 2, results = [],
      returned = False, aborted = None\<rparr>"
  by (simp add: demo_schedule_eq init_state_def step_def demo_nets demo_Concurrency)


section \<open>The claims about testBulkCORS and main\<close>

lemma setup_inv:
  assumes "bulk_setup lib w filename config = Inr s0"
  shows "bulk_inv lib nts config s0"
  using assms by (auto simp: bulk_setup_Inr intro: bulk_inv_init)

lemma setup_reachable:
  assumes "os_Open w filename = Inr file" "bulk_setup lib w filename config = Inr s0"
    "reachable lib nts config s0 s"
  shows "bulk_inv lib nts config s"
    and "map fst (workers s) @ pending s = collect_urls lib (scanned file) []"
proof -
  show "bulk_inv lib nts config s"
    using assms(3) setup_inv [OF assms(2)] by (rule reachable_inv)
  show "map fst (workers s) @ pending s = collect_urls lib (scanned file) []"
    using assms(1,2) reachable_targets [OF assms(3)]
    by (auto simp: bulk_setup_Inr init_state_def)
qed

lemma returned_state:
  assumes "os_Open w filename = Inr file" "bulk_setup lib w filename config = Inr s0"
    "reachable lib nts config s0 s" "returned s"
  shows "map fst (workers s) = collect_urls lib (scanned file) []"
    and "mset (map Inr (results s)) =
           mset (map (\<lambda>(i, u). testCORS lib (nts i) u config)
                  (enumerate 0 (collect_urls lib (scanned file) [])))"
    and "\<forall>wk \<in> set (workers s). \<exists>r. snd wk = Finished r \<and> r \<in> set (results s)"
    and "sem s = 0"
proof -
  note inv = setup_reachable(1) [OF assms(1-3)]
  have "pending s = []"
    using inv assms(4) by (simp add: bulk_inv_def)
  then show ws: "map fst (workers s) = collect_urls lib (scanned file) []"
    using setup_reachable(2) [OF assms(1-3)] by simp
  show "mset (map Inr (results s)) =
           mset (map (\<lambda>(i, u). testCORS lib (nts i) u config)
                  (enumerate 0 (collect_urls lib (scanned file) [])))"
    using returned_results [OF inv assms(4)] by (simp only: ws)
  have fin: "\<exists>r. snd (workers s ! j) = Finished r" if "j < length (workers s)" for j
    using inv assms(4) that by (rule returned_all_finished)
  show "\<forall>wk \<in> set (workers s). \<exists>r. snd wk = Finished r \<and> r \<in> set (results s)"
  proof
    fix wk
    assume wk: "wk \<in> set (workers s)"
    then obtain r where r: "snd wk = Finished r"
      using fin by (auto simp: in_set_conv_nth)
    have "set (results s) = set (concat (map (appended_of \<circ> snd) (workers s)))"
      using inv by (metis bulk_inv_def set_mset_mset)
    then have "r \<in> set (results s)"
      using wk r by force
    then show "\<exists>r. snd wk = Finished r \<and> r \<in> set (results s)"
      using r by blast
  qed
  have "\<not> holding (snd (workers s ! j))" if "j < length (workers s)" for j
    using fin [OF that] by auto
  then have "cnt holding (workers s) = 0"
    by (simp add: cnt_zero)
  then show "sem s = 0"
    using inv by (simp add: bulk_inv_def)
qed

text \<open>
  Claim C1. Let the input file open. Whenever \<open>testBulkCORS\<close> returns, under any
  schedule and any concurrency limit, it returns exactly one result per valid target:
  as many results as targets, the multiset of their URLs is the multiset of the targets,
  and they are the results of one call of \<open>testCORS\<close> per target. In a state where it
  has returned, one goroutine per target has been started, and each has finished after
  appending its result. If the file is read without error, has at least one valid target
  and the concurrency limit is at least 1, then \<open>testBulkCORS\<close> does return: some
  schedule makes it return, no reachable state that has not returned is blocked, and
  every operation lowers \<open>remaining\<close>, so every execution ends, and ends by returning.
\<close>

theorem bulk_scan_complete:
  assumes "os_Open w filename = Inr file"
  shows "(\<forall>sched rs. testBulkCORS lib w filename config sched = Inr rs \<longrightarrow>
            length rs = length (collect_urls lib (scanned file) []) \<and>
            mset (map URL rs) = mset (collect_urls lib (scanned file) []) \<and>
            mset (map Inr rs) =
              mset (map (\<lambda>(i, u). testCORS lib (nets w i) u config)
                     (enumerate 0 (collect_urls lib (scanned file) [])))) \<and>
         (\<forall>s0 s. bulk_setup lib w filename config = Inr s0 \<and>
            reachable lib (nets w) config s0 s \<and> returned s \<longrightarrow>
              length (results s) = length (collect_urls lib (scanned file) []) \<and>
              mset (map URL (results s)) = mset (collect_urls lib (scanned file) []) \<and>
              map fst (workers s) = collect_urls lib (scanned file) [] \<and>
              (\<forall>wk \<in> set (workers s). \<exists>r. snd wk = Finished r \<and> r \<in> set (results s))) \<and>
         (scan_err file = None \<and> collect_urls lib (scanned file) [] \<noteq> [] \<and>
          1 \<le> Concurrency config \<longrightarrow>
            (\<exists>sched rs. testBulkCORS lib w filename config sched = Inr rs) \<and>
            (\<forall>s0 s. bulk_setup lib w filename config = Inr s0 \<and>
               reachable lib (nets w) config s0 s \<and> \<not> returned s \<longrightarrow>
                 (\<exists>a s'. step lib (nets w) config a s = Some s')) \<and>
            (\<forall>s0 s a s'. bulk_setup lib w filename config = Inr s0 \<and>
               reachable lib (nets w) config s0 s \<and>
               step lib (nets w) config a s = Some s' \<longrightarrow> remaining s' < remaining s))"
proof -
  let ?urls = "collect_urls lib (scanned file) []"
  let ?expected = "map (\<lambda>(i, u). testCORS lib (nets w i) u config) (enumerate 0 ?urls)"
  have state: "length (results s) = length ?urls \<and> mset (map URL (results s)) = mset ?urls \<and>
      mset (map Inr (results s)) = mset ?expected \<and> map fst (workers s) = ?urls \<and>
      (\<forall>wk \<in> set (workers s). \<exists>r. snd wk = Finished r \<and> r \<in> set (results s))"
    if su: "bulk_setup lib w filename config = Inr s0"
      and reach: "reachable lib (nets w) config s0 s" and ret: "returned s" for s0 s
  proof -
    have m: "mset (map Inr (results s)) = mset ?expected"
      using assms su reach ret by (rule returned_state(2))
    moreover have "map fst (workers s) = ?urls"
      using assms su reach ret by (rule returned_state(1))
    moreover have "\<forall>wk \<in> set (workers s). \<exists>r. snd wk = Finished r \<and> r \<in> set (results s)"
      using assms su reach ret by (rule returned_state(3))
    ultimately show ?thesis
      using results_URLs [OF m] by simp
  qed
  have run: "length rs = length ?urls \<and> mset (map URL rs) = mset ?urls \<and>
      mset (map Inr rs) = mset ?expected"
    if r: "testBulkCORS lib w filename config sched = Inr rs" for sched rs
  proof -
    obtain s0 where su: "bulk_setup lib w filename config = Inr s0"
      using r by (cases "bulk_setup lib w filename config") (auto simp: testBulkCORS_def)
    define s where "s = exec lib (nets w) config sched s0"
    have reach: "reachable lib (nets w) config s0 s"
      unfolding s_def by (rule exec_reachable)
    have "returned s \<and> rs = results s"
      using r su
      by (auto simp: testBulkCORS_def Let_def s_def split: option.splits if_splits)
    then show ?thesis
      using state [OF su reach] by simp
  qed
  have returns: "\<exists>sched rs. testBulkCORS lib w filename config sched = Inr rs"
    if noerr: "scan_err file = None" and ne: "?urls \<noteq> []" and cap: "1 \<le> Concurrency config"
  proof -
    have su: "bulk_setup lib w filename config = Inr (init_state ?urls)"
      using assms noerr ne cap by (simp add: bulk_setup_def)
    then have inv0: "bulk_inv lib (nets w) config (init_state ?urls)"
      by (rule setup_inv)
    obtain sched where ret: "returned (exec lib (nets w) config sched (init_state ?urls))"
      using can_return [OF inv0 cap] by blast
    have "bulk_inv lib (nets w) config (exec lib (nets w) config sched (init_state ?urls))"
      using exec_reachable inv0 by (rule reachable_inv)
    then have "aborted (exec lib (nets w) config sched (init_state ?urls)) = None"
      by (simp add: bulk_inv_def)
    then have "testBulkCORS lib w filename config sched =
        Inr (results (exec lib (nets w) config sched (init_state ?urls)))"
      using ret su by (simp add: testBulkCORS_def)
    then show ?thesis by blast
  qed
  have progress: "\<exists>a s'. step lib (nets w) config a s = Some s'"
    if "1 \<le> Concurrency config" "bulk_setup lib w filename config = Inr s0"
      "reachable lib (nets w) config s0 s" "\<not> returned s" for s0 s
    using setup_reachable(1) [OF assms that(2,3)] that(1,4) by (rule no_deadlock)
  have decrease: "remaining s' < remaining s"
    if "bulk_setup lib w filename config = Inr s0" "reachable lib (nets w) config s0 s"
      "step lib (nets w) config a s = Some s'" for s0 s a s'
    using step_remaining [OF setup_reachable(1) [OF assms that(1,2)] that(3)] by simp
  show ?thesis
  proof (intro conjI)
    show "\<forall>sched rs. testBulkCORS lib w filename config sched = Inr rs \<longrightarrow>
            length rs = length ?urls \<and> mset (map URL rs) = mset ?urls \<and>
            mset (map Inr rs) = mset ?expected"
      using run by blast
    show "\<forall>s0 s. bulk_setup lib w filename config = Inr s0 \<and>
            reachable lib (nets w) config s0 s \<and> returned s \<longrightarrow>
              length (results s) = length ?urls \<and>
              mset (map URL (results s)) = mset ?urls \<and>
              map fst (workers s) = ?urls \<and>
              (\<forall>wk \<in> set (workers s). \<exists>r. snd wk = Finished r \<and> r \<in> set (results s))"
      using state by blast
    show "scan_err file = None \<and> ?urls \<noteq> [] \<and> 1 \<le> Concurrency config \<longrightarrow>
            (\<exists>sched rs. testBulkCORS lib w filename config sched = Inr rs) \<and>
            (\<forall>s0 s. bulk_setup lib w filename config = Inr s0 \<and>
               reachable lib (nets w) config s0 s \<and> \<not> returned s \<longrightarrow>
                 (\<exists>a s'. step lib (nets w) config a s = Some s')) \<and>
            (\<forall>s0 s a s'. bulk_setup lib w filename config = Inr s0 \<and>
               reachable lib (nets w) config s0 s \<and>
               step lib (nets w) config a s = Some s' \<longrightarrow> remaining s' < remaining s)"
      using returns progress decrease by blast
  qed
qed

lemma demo_bulk:
  "1 \<le> c \<Longrightarrow> testBulkCORS demo_lib demo_world ''urls.txt'' (demo_config c) demo_schedule =
     Inr [demo_result_a, demo_result_b]"
  by (simp add: testBulkCORS_def demo_setup demo_run)

text \<open>The theorem at the file of two valid targets, concurrency limit 1.\<close>
theorem bulk_scan_complete_witness:
  "os_Open demo_world ''urls.txt'' =
     Inr \<lparr>scanned = [''http://a.test/'', [], ''  http://b.test/  '', ''a.test'', ''http://c d/''],
          scan_err = None\<rparr> \<and>
   testBulkCORS demo_lib demo_world ''urls.txt'' (demo_config 1) demo_schedule =
     Inr [demo_result_a, demo_result_b] \<and>
   collect_urls demo_lib
     [''http://a.test/'', [], ''  http://b.test/  '', ''a.test'', ''http://c d/''] [] =
     [''http://a.test/'', ''http://b.test/''] \<and>
   mset (map URL [demo_result_a, demo_result_b]) = mset [''http://a.test/'', ''http://b.test/'']"
proof -
  have run: "testBulkCORS demo_lib demo_world ''urls.txt'' (demo_config 1) demo_schedule =
     Inr [demo_result_a, demo_result_b]"
    by (simp add: demo_bulk)
  have "\<forall>sched rs. testBulkCORS demo_lib demo_world ''urls.txt'' (demo_config 1) sched = Inr rs \<longrightarrow>
      length rs = length (collect_urls demo_lib (scanned \<lparr>scanned = [''http://a.test/'', [], ''  http://b.test/  '', ''a.test'', ''http://c d/''], scan_err = None\<rparr>) []) \<and>
      mset (map URL rs) = mset (collect_urls demo_lib (scanned \<lparr>scanned = [''http://a.test/'', [], ''  http://b.test/  '', ''a.test'', ''http://c d/''], scan_err = None\<rparr>) []) \<and>
      mset (map Inr rs) =
        mset (map (\<lambda>(i, u). testCORS demo_lib (nets demo_world i) u (demo_config 1))
               (enumerate 0 (collect_urls demo_lib (scanned \<lparr>scanned = [''http://a.test/'', [], ''  http://b.test/  '', ''a.test'', ''http://c d/''], scan_err = None\<rparr>) [])))"
    using bulk_scan_complete [OF demo_open_urls] by (rule conjunct1)
  then have "mset (map URL [demo_result_a, demo_result_b]) =
      mset (collect_urls demo_lib (scanned \<lparr>scanned = [''http://a.test/'', [], ''  http://b.test/  '', ''a.test'', ''http://c d/''], scan_err = None\<rparr>) [])"
    using run by blast
  then show ?thesis
    using run by (simp add: demo_urls demo_open_urls del: collect_urls.simps)
qed







lemma zero_cap_inv:
  assumes "reachable lib nts config s0 s" "Concurrency config = 0" "s0 = init_state urls"
    "urls \<noteq> []"
  shows "(\<forall>wk \<in> set (workers s). snd wk = Spawned) \<and> results s = [] \<and> \<not> returned s \<and>
         wg s = length (workers s) \<and> (pending s \<noteq> [] \<or> workers s \<noteq> []) \<and>
         aborted s = None"
  using assms
proof (induction rule: reachable.induct)
  case (reachable_init lib nts config s0)
  then show ?case by (simp add: init_state_def)
next
  case (reachable_step lib nts config s0 s a s')
  then have IH: "\<forall>wk \<in> set (workers s). snd wk = Spawned" "results s = []" "\<not> returned s"
    "wg s = length (workers s)" "pending s \<noteq> [] \<or> workers s \<noteq> []" "aborted s = None"
    by simp_all
  show ?case
  proof (cases a)
    case Spawn
    then show ?thesis
      using reachable_step.hyps(2) IH by (auto elim!: step_SpawnE)
  next
    case (Go i)
    with reachable_step.hyps(2) obtain u ph where *: "i < length (workers s)"
      "workers s ! i = (u, ph)" "step_worker lib (nts i) config i u ph s = Some s'"
      by (auto elim: step_GoE)
    then have "ph = Spawned"
      using IH(1) by (metis nth_mem snd_conv)
    then show ?thesis
      using * reachable_step.prems(1) by simp
  next
    case Wait
    then show ?thesis
      using reachable_step.hyps(2) IH by (auto elim!: step_WaitE)
  qed
qed

lemma zero_cap_blocked:
  assumes "Concurrency config = 0" "i < length (workers s)" "snd (workers s ! i) = Spawned"
  shows "step lib nts config (Go i) s = None"
  using assms by (cases "workers s ! i") (auto simp: step_def)

text \<open>
  Claim C10. \<open>main\<close> passes the value of the \<open>-concurrency\<close> flag to the scan as it is.
  A bulk scan that returns has a concurrency limit of at least 1. With a limit of 0, in
  every reachable state no goroutine has got past its send on the semaphore, each of
  them is blocked, nothing has been appended, and once all goroutines are started no
  operation at all is enabled; so \<open>testBulkCORS\<close> returns under no schedule and \<open>main\<close>
  never completes.
\<close>
theorem zero_concurrency_never_returns:
  "Concurrency (mk_config fl) = flag_concurrency fl \<and>
   (\<forall>s0 s. bulk_setup lib w filename config = Inr s0 \<and>
      reachable lib (nets w) config s0 s \<and> returned s \<longrightarrow> 1 \<le> Concurrency config) \<and>
   (\<forall>s0 s. Concurrency config = 0 \<and> bulk_setup lib w filename config = Inr s0 \<and>
      reachable lib (nets w) config s0 s \<longrightarrow>
        \<not> returned s \<and> results s = [] \<and>
        (\<forall>i < length (workers s).
           snd (workers s ! i) = Spawned \<and> step lib (nets w) config (Go i) s = None) \<and>
        (pending s = [] \<longrightarrow> (\<forall>a. step lib (nets w) config a s = None))) \<and>
   (Concurrency config = 0 \<longrightarrow>
      (\<forall>sched rs. testBulkCORS lib w filename config sched \<noteq> Inr rs)) \<and>
   (\<not> showVersion fl \<and> urlInput fl = [] \<and> flag_concurrency fl = 0 \<longrightarrow>
      (\<forall>sched path rs ls. main lib w fl sched \<noteq> Completed path rs ls))"
proof -
  have zero: "\<not> returned s \<and> results s = [] \<and>
        (\<forall>i < length (workers s).
           snd (workers s ! i) = Spawned \<and> step lib (nets w) config (Go i) s = None) \<and>
        (pending s = [] \<longrightarrow> (\<forall>a. step lib (nets w) config a s = None))"
    if c: "Concurrency config = 0" and su: "bulk_setup lib w filename config = Inr s0"
      and reach: "reachable lib (nets w) config s0 s" for config filename s0 s
  proof -
    obtain urls where "s0 = init_state urls" "urls \<noteq> []"
      using su by (auto simp: bulk_setup_Inr)
    note z = zero_cap_inv [OF reach c this]
    have sp: "snd (workers s ! i) = Spawned" if "i < length (workers s)" for i
      using z that by simp
    have blocked: "step lib (nets w) config (Go i) s = None" for i
    proof (cases "i < length (workers s)")
      case True
      then show ?thesis using zero_cap_blocked [OF c True sp] by simp
    next
      case False
      then show ?thesis by (simp add: step_def)
    qed
    have "step lib (nets w) config a s = None" if "pending s = []" for a
    proof (cases a)
      case Spawn
      then show ?thesis using that by (simp add: step_def)
    next
      case (Go i)
      then show ?thesis using blocked by simp
    next
      case Wait
      then show ?thesis using z that by (auto simp: step_def)
    qed
    then show ?thesis
      using z sp blocked by simp
  qed
  have never: "testBulkCORS lib w filename config sched \<noteq> Inr rs"
    if c: "Concurrency config = 0" for config filename sched rs
  proof (cases "bulk_setup lib w filename config")
    case (Inl a)
    then show ?thesis by (simp add: testBulkCORS_def)
  next
    case (Inr s0)
    have "\<not> returned (exec lib (nets w) config sched s0)"
      using zero [OF c Inr exec_reachable] by simp
    then show ?thesis
      using Inr by (simp add: testBulkCORS_def Let_def split: option.splits)
  qed
  have ret: "1 \<le> Concurrency config"
    if "bulk_setup lib w filename config = Inr s0" "reachable lib (nets w) config s0 s"
      "returned s" for s0 s
  proof -
    have "0 \<le> Concurrency config"
      using that(1) by (auto simp: bulk_setup_Inr)
    moreover have "Concurrency config \<noteq> 0"
      using zero [OF _ that(1,2)] that(3) by blast
    ultimately show ?thesis by simp
  qed
  have cfg: "Concurrency (mk_config fl) = flag_concurrency fl"
    by (simp add: mk_config_def)
  have "main lib w fl sched \<noteq> Completed path rs ls"
    if "\<not> showVersion fl" "urlInput fl = []" "flag_concurrency fl = 0" for sched path rs ls
  proof -
    have "testBulkCORS lib w (fileInput fl) (mk_config fl) sched \<noteq> Inr rs'" for rs'
      using never [of "mk_config fl"] that(3) cfg by simp
    then obtain oc where oc: "testBulkCORS lib w (fileInput fl) (mk_config fl) sched = Inl oc"
      by (cases "testBulkCORS lib w (fileInput fl) (mk_config fl) sched") auto
    then have "oc = NotReturned \<or> (\<exists>a. oc = Died a)"
      by (auto simp: testBulkCORS_def Let_def split: sum.splits option.splits if_splits)
    then show ?thesis
      using that oc by (auto simp: main_def Let_def)
  qed
  then show ?thesis
    using cfg ret zero never by blast
qed

lemma demo_mk_config: "mk_config (demo_flags f c) = demo_config c"
  by (simp add: mk_config_def demo_flags_def demo_config_def)

lemma demo_flags_simps:
  "showVersion (demo_flags f c) = False" "urlInput (demo_flags f c) = []"
  "fileInput (demo_flags f c) = f" "outputFile (demo_flags f c) = ''cors_results.txt''"
  "flag_concurrency (demo_flags f c) = c"
  by (simp_all add: demo_flags_def)

lemma demo_bulk_0:
  "testBulkCORS demo_lib demo_world ''urls.txt'' (demo_config 0) demo_schedule = Inl NotReturned"
  by (simp add: testBulkCORS_def demo_setup demo_run_0)

lemma demo_bulk_blank:
  "testBulkCORS demo_lib demo_world ''blank.txt'' config sched =
     Inl (Died (Fatal ''No valid URLs found in file''))"
  by (simp add: testBulkCORS_def bulk_setup_def demo_open_blank demo_blank
        del: collect_urls.simps)

lemma demo_bulk_empty:
  "testBulkCORS demo_lib demo_world ''empty.txt'' config sched =
     Inl (Died (Fatal ''No valid URLs found in file''))"
  by (simp add: testBulkCORS_def bulk_setup_def demo_open_empty)

lemma demo_main_0:
  "main demo_lib demo_world (demo_flags ''urls.txt'' 0) demo_schedule = NotReturned"
  by (simp add: main_def demo_flags_simps demo_mk_config demo_bulk_0)

text \<open>The theorem at the file of two valid targets with \<open>-concurrency 0\<close>.\<close>
theorem zero_concurrency_never_returns_witness:
  "Concurrency (mk_config (demo_flags ''urls.txt'' 0)) = 0 \<and>
   bulk_setup demo_lib demo_world ''urls.txt'' (demo_config 0) =
     Inr (init_state [''http://a.test/'', ''http://b.test/'']) \<and>
   testBulkCORS demo_lib demo_world ''urls.txt'' (demo_config 0) demo_schedule =
     Inl NotReturned \<and>
   main demo_lib demo_world (demo_flags ''urls.txt'' 0) demo_schedule = NotReturned \<and>
   workers (exec demo_lib (nets demo_world) (demo_config 0) demo_schedule
      (init_state [''http://a.test/'', ''http://b.test/''])) =
     [(''http://a.test/'', Spawned), (''http://b.test/'', Spawned)]"
  using zero_concurrency_never_returns
    [of "demo_flags ''urls.txt'' 0" demo_lib demo_world "''urls.txt''" "demo_config 0"]
  by (simp add: demo_main_0 demo_run_0 demo_mk_config demo_Concurrency demo_setup demo_bulk_0)

text \<open>
  Claim C6. If \<open>main\<close> is run on an input file that opens and no line of it (there may be
  none) yields a valid URL, then the set-up of the scan ends in \<open>log.Fatal\<close>: with the
  message \<open>No valid URLs found in file\<close> when the file was read without error, and with
  the read error otherwise. No goroutine is ever started, and under every schedule
  \<open>main\<close> dies with this message and does not reach \<open>saveResults\<close>.
\<close>

theorem no_valid_urls_is_fatal:
  assumes "\<not> showVersion fl" and "urlInput fl = []" and "fileInput fl \<noteq> []"
    and "os_Open w (fileInput fl) = Inr file"
    and "\<forall>line \<in> set (scanned file).
           strings_TrimSpace lib line = [] \<or> \<not> isValidURL lib (strings_TrimSpace lib line)"
  shows "\<exists>msg.
           (scan_err file = None \<longrightarrow> msg = ''No valid URLs found in file'') \<and>
           (\<forall>e. scan_err file = Some e \<longrightarrow> msg = ''Error reading file: '' @ e) \<and>
           bulk_setup lib w (fileInput fl) (mk_config fl) = Inl (Fatal msg) \<and>
           (\<forall>sched.
              testBulkCORS lib w (fileInput fl) (mk_config fl) sched = Inl (Died (Fatal msg)) \<and>
              main lib w fl sched = Died (Fatal msg) \<and>
              (\<forall>path rs ls. main lib w fl sched \<noteq> Completed path rs ls))"
proof -
  define msg where "msg =
    (case scan_err file of None \<Rightarrow> ''No valid URLs found in file''
     | Some e \<Rightarrow> ''Error reading file: '' @ e)"
  have "collect_urls lib (scanned file) [] = []"
    using assms(5) by (auto simp: collect_urls_eq filter_empty_conv)
  then have su: "bulk_setup lib w (fileInput fl) (mk_config fl) = Inl (Fatal msg)"
    using assms(4) by (simp add: bulk_setup_def msg_def split: option.splits)
  then have "testBulkCORS lib w (fileInput fl) (mk_config fl) sched = Inl (Died (Fatal msg))"
    for sched
    by (simp add: testBulkCORS_def)
  then have dies: "\<forall>sched.
      testBulkCORS lib w (fileInput fl) (mk_config fl) sched = Inl (Died (Fatal msg)) \<and>
      main lib w fl sched = Died (Fatal msg) \<and>
      (\<forall>path rs ls. main lib w fl sched \<noteq> Completed path rs ls)"
    using assms(1-3) by (simp add: main_def)
  have none: "scan_err file = None \<longrightarrow> msg = ''No valid URLs found in file''"
    by (simp add: msg_def)
  have some: "\<forall>e. scan_err file = Some e \<longrightarrow> msg = ''Error reading file: '' @ e"
    by (simp add: msg_def)
  show ?thesis
    by (rule exI [of _ msg]) (intro conjI none some su dies)
qed

lemma demo_main_blank:
  "main demo_lib demo_world (demo_flags ''blank.txt'' c) sched =
     Died (Fatal ''No valid URLs found in file'')"
  by (simp add: main_def demo_flags_simps demo_bulk_blank)

lemma demo_main_empty:
  "main demo_lib demo_world (demo_flags ''empty.txt'' c) sched =
     Died (Fatal ''No valid URLs found in file'')"
  by (simp add: main_def demo_flags_simps demo_bulk_empty)

text \<open>The theorem at a file of blank and invalid lines, and at an empty file.\<close>
theorem no_valid_urls_is_fatal_witness:
  "main demo_lib demo_world (demo_flags ''blank.txt'' 2) demo_schedule =
     Died (Fatal ''No valid URLs found in file'') \<and>
   main demo_lib demo_world (demo_flags ''empty.txt'' 2) demo_schedule =
     Died (Fatal ''No valid URLs found in file'') \<and>
   os_Open demo_world ''blank.txt'' = Inr \<lparr>scanned = [[], ''   '', ''a.test''], scan_err = None\<rparr> \<and>
   os_Open demo_world ''empty.txt'' = Inr \<lparr>scanned = [], scan_err = None\<rparr> \<and>
   strings_TrimSpace demo_lib [] = [] \<and> strings_TrimSpace demo_lib ''   '' = [] \<and>
   \<not> isValidURL demo_lib (strings_TrimSpace demo_lib ''a.test'')"
proof -
  have blank: "\<forall>line \<in> set (scanned \<lparr>scanned = [[], ''   '', ''a.test''], scan_err = None\<rparr>).
      strings_TrimSpace demo_lib line = [] \<or>
      \<not> isValidURL demo_lib (strings_TrimSpace demo_lib line)"
    by (simp add: isValidURL_def demo_lib_def demo_TrimSpace_def is_space_def demo_Parse_def)
  have 1: "main demo_lib demo_world (demo_flags ''blank.txt'' 2) demo_schedule =
     Died (Fatal ''No valid URLs found in file'')"
    using no_valid_urls_is_fatal [of "demo_flags ''blank.txt'' 2" demo_world _ demo_lib,
        OF _ _ _ _ blank]
    by (simp add: demo_flags_def demo_open_blank)
  have 2: "main demo_lib demo_world (demo_flags ''empty.txt'' 2) demo_schedule =
     Died (Fatal ''No valid URLs found in file'')"
    using no_valid_urls_is_fatal [of "demo_flags ''empty.txt'' 2" demo_world
        "\<lparr>scanned = [], scan_err = None\<rparr>" demo_lib]
    by (simp add: demo_flags_def demo_open_empty)
  have 3: "strings_TrimSpace demo_lib [] = [] \<and> strings_TrimSpace demo_lib ''   '' = [] \<and>
      \<not> isValidURL demo_lib (strings_TrimSpace demo_lib ''a.test'')"
    by (simp add: isValidURL_def demo_lib_def demo_TrimSpace_def is_space_def demo_Parse_def)
  show ?thesis
    using 1 2 3 by (simp add: demo_open_blank demo_open_empty)
qed

text \<open>
  Claim C8. The targets collected from the lines of the input file are, in order, the
  trimmed lines that are non-empty and that \<open>url.Parse\<close> accepts with a non-empty scheme
  and a non-empty host; every other line is skipped. In every state of the scan the
  targets of the goroutines started so far, followed by the targets still to be started,
  are exactly this list.
\<close>
theorem scheduled_targets:
  "collect_urls lib lines [] =
     filter (\<lambda>u. u \<noteq> [] \<and> (\<exists>p. url_Parse lib u = Inr p \<and> Scheme p \<noteq> [] \<and> Host p \<noteq> []))
       (map (strings_TrimSpace lib) lines) \<and>
   (\<forall>file s0 s. os_Open w filename = Inr file \<and> bulk_setup lib w filename config = Inr s0 \<and>
       reachable lib nts config s0 s \<longrightarrow>
     map fst (workers s) @ pending s =
       filter (\<lambda>u. u \<noteq> [] \<and> (\<exists>p. url_Parse lib u = Inr p \<and> Scheme p \<noteq> [] \<and> Host p \<noteq> []))
         (map (strings_TrimSpace lib) (scanned file)))"
proof -
  have eq: "collect_urls lib ls [] =
     filter (\<lambda>u. u \<noteq> [] \<and> (\<exists>p. url_Parse lib u = Inr p \<and> Scheme p \<noteq> [] \<and> Host p \<noteq> []))
       (map (strings_TrimSpace lib) ls)" for ls
    by (simp add: collect_urls_eq isValidURL_iff)
  have "map fst (workers s) @ pending s = collect_urls lib (scanned file) []"
    if "os_Open w filename = Inr file" "bulk_setup lib w filename config = Inr s0"
      "reachable lib nts config s0 s" for "file" s0 s
    using that reachable_targets [OF that(3)]
    by (auto simp: bulk_setup_Inr init_state_def)
  then show ?thesis
    using eq by metis
qed

text \<open>
  The theorem about the scheduled targets, at the file of five lines, two of them valid
  targets, after both goroutines were started.
\<close>
theorem scheduled_targets_witness:
  "os_Open demo_world ''urls.txt'' =
     Inr \<lparr>scanned = [''http://a.test/'', [], ''  http://b.test/  '', ''a.test'', ''http://c d/''],
          scan_err = None\<rparr> \<and>
   bulk_setup demo_lib demo_world ''urls.txt'' (demo_config 1) =
     Inr (init_state [''http://a.test/'', ''http://b.test/'']) \<and>
   collect_urls demo_lib
     [''http://a.test/'', [], ''  http://b.test/  '', ''a.test'', ''http://c d/''] [] =
     [''http://a.test/'', ''http://b.test/''] \<and>
   map fst (workers (exec demo_lib (nets demo_world) (demo_config 1) demo_prefix
      (init_state [''http://a.test/'', ''http://b.test/'']))) @
   pending (exec demo_lib (nets demo_world) (demo_config 1) demo_prefix
      (init_state [''http://a.test/'', ''http://b.test/''])) =
     [''http://a.test/'', ''http://b.test/'']"
proof -
  note th = scheduled_targets [of demo_lib
      "[''http://a.test/'', [], ''  http://b.test/  '', ''a.test'', ''http://c d/'']"
      demo_world "''urls.txt''" "demo_config 1" "nets demo_world"]
  have "map fst (workers (exec demo_lib (nets demo_world) (demo_config 1) demo_prefix
      (init_state [''http://a.test/'', ''http://b.test/'']))) @
   pending (exec demo_lib (nets demo_world) (demo_config 1) demo_prefix
      (init_state [''http://a.test/'', ''http://b.test/''])) =
     filter (\<lambda>u. u \<noteq> [] \<and> (\<exists>p. url_Parse demo_lib u = Inr p \<and> Scheme p \<noteq> [] \<and> Host p \<noteq> []))
       (map (strings_TrimSpace demo_lib)
          (scanned \<lparr>scanned = [''http://a.test/'', [], ''  http://b.test/  '', ''a.test'',
                                 ''http://c d/''], scan_err = None\<rparr>))"
    using th demo_open_urls demo_setup [of 1, simplified] exec_reachable by blast
  moreover have "collect_urls demo_lib
     [''http://a.test/'', [], ''  http://b.test/  '', ''a.test'', ''http://c d/''] [] =
     filter (\<lambda>u. u \<noteq> [] \<and> (\<exists>p. url_Parse demo_lib u = Inr p \<and> Scheme p \<noteq> [] \<and> Host p \<noteq> []))
       (map (strings_TrimSpace demo_lib)
          [''http://a.test/'', [], ''  http://b.test/  '', ''a.test'', ''http://c d/''])"
    using th by (rule conjunct1)
  ultimately show ?thesis
    using demo_urls by (simp add: demo_open_urls demo_setup del: collect_urls.simps)
qed

end
